theory Spec2Isabelle
  imports Complex_Main
begin

section \<open>The serial link to the motor controller\<close>

text \<open>
  The Python programs talk to the Arduino through a \<^verbatim>\<open>serial.Serial\<close> object. What
  the programs can observe of it is modelled by a record: whether the port is open, the
  bytes the device has accepted so far, how many times \<^verbatim>\<open>write\<close> was called, and a tape of
  the outcomes of the coming write attempts (\<open>True\<close>: the attempt raises, as when the
  device is unplugged; an empty tape: every attempt succeeds). A \<^verbatim>\<open>write\<close> followed by
  \<^verbatim>\<open>flush\<close> is one attempt. A raising attempt leaves the port object as it was: it stays
  open.
\<close>

datatype io_error = SerialException

record serial_port =
  is_open :: bool
  wire :: string
  write_calls :: nat
  faults :: "bool list"

definition serial_write :: "serial_port \<Rightarrow> string \<Rightarrow> io_error option \<times> serial_port" where
  "serial_write p bs =
     (case faults p of
        [] \<Rightarrow> (None, p\<lparr>wire := wire p @ bs, write_calls := Suc (write_calls p)\<rparr>)
      | f # fs \<Rightarrow>
          if f then (Some SerialException, p\<lparr>write_calls := Suc (write_calls p), faults := fs\<rparr>)
          else (None, p\<lparr>wire := wire p @ bs, write_calls := Suc (write_calls p), faults := fs\<rparr>))"

definition serial_close :: "serial_port \<Rightarrow> serial_port" where
  "serial_close p = p\<lparr>is_open := False\<rparr>"

text \<open>Lines printed on the console, by kind (the texts carry emoji and numbers).\<close>

datatype print_msg =
    Arduino_connected
  | Could_not_connect
  | Error_sending
  | Car_started
  | Car_stopped
  | Cleaning_up
  | Shut_down

section \<open>What the vision collaborator reports for a frame\<close>

text \<open>
  A frame is represented by what the two cascade classifiers find in it: the face
  rectangles \<open>(x, y, w, h)\<close> in the order \<^verbatim>\<open>detectMultiScale\<close> returns them, each with
  the eye rectangles found inside its region.
\<close>

type_synonym rect = "int \<times> int \<times> int \<times> int"

record detected_face =
  box :: rect
  eyes :: "rect list"

type_synonym frame = "detected_face list"

definition area :: "detected_face \<Rightarrow> int" where
  "area f = (case box f of (x, y, w, h) \<Rightarrow> w * h)"

text \<open>Python's \<^verbatim>\<open>max(faces, key=...)\<close>: the first element with the greatest key.\<close>

fun max_from :: "detected_face \<Rightarrow> detected_face list \<Rightarrow> detected_face" where
  "max_from m [] = m"
| "max_from m (f # fs) = max_from (if area m < area f then f else m) fs"

section \<open>eye\_controlled\_car.py: class EyeControlledCar\<close>

text \<open>
  The status text returned by \<^verbatim>\<open>detect_eye_state\<close>, by template:
  "No driver detected - Car STOPPED", "Eyes CLOSED - Car STOPPED (n)", "Checking... (n)"
  and "Eyes OPEN - Car RUNNING (k eyes)".
\<close>

datatype status_msg =
    No_driver_detected
  | Eyes_closed_stopped int
  | Checking int
  | Eyes_open_running nat

text \<open>
  The fields of the object. \<open>sent\<close> is instrumentation: the signals passed to
  \<^verbatim>\<open>send_to_arduino\<close>, one entry per call, whether or not a port is there.
\<close>

record car =
  EYE_CLOSED_THRESHOLD :: int
  eye_closed_counter :: int
  no_face_counter :: int
  frame_count :: int
  car_running :: bool
  arduino :: "serial_port option"
  console :: "print_msg list"
  sent :: "string list"

text \<open>
  The four classes have the same \<^verbatim>\<open>send_to_arduino\<close>. Its effect on the link and the
  lines it prints are \<open>link_send\<close>: nothing without a port or with a closed one;
  otherwise one write attempt, whose exception is caught and printed. The link itself is
  never replaced or closed here.
\<close>

definition link_send :: "string \<Rightarrow> serial_port option \<Rightarrow> serial_port option \<times> print_msg list" where
  "link_send signal link =
     (case link of
        None \<Rightarrow> (None, [])
      | Some p \<Rightarrow>
          if is_open p then
            (case serial_write p signal of
               (None, p') \<Rightarrow> (Some p', [])
             | (Some e, p') \<Rightarrow> (Some p', [Error_sending]))
          else (Some p, []))"

definition send_to_arduino :: "string \<Rightarrow> 'a car_scheme \<Rightarrow> 'a car_scheme" where
  "send_to_arduino signal s =
     (case link_send signal (arduino s) of
        (link, printed) \<Rightarrow>
          s\<lparr>arduino := link, console := console s @ printed, sent := sent s @ [signal]\<rparr>)"

text \<open>
  \<^verbatim>\<open>setup_arduino\<close>: the argument is the outcome of \<^verbatim>\<open>serial.Serial(port, baud_rate,
  timeout=1)\<close>, an exception or a fresh port.
\<close>

definition setup_arduino :: "io_error + serial_port \<Rightarrow> 'a car_scheme \<Rightarrow> 'a car_scheme" where
  "setup_arduino opened s =
     (case opened of
        Inr p \<Rightarrow> send_to_arduino ''0'' (s\<lparr>arduino := Some p, console := console s @ [Arduino_connected]\<rparr>)
      | Inl e \<Rightarrow> s\<lparr>arduino := None, console := console s @ [Could_not_connect]\<rparr>)"

text \<open>\<^verbatim>\<open>__init__\<close>, up to the point where the webcam is opened.\<close>

definition init_car :: "io_error + serial_port \<Rightarrow> car" where
  "init_car opened =
     setup_arduino opened
       \<lparr>EYE_CLOSED_THRESHOLD = 15, eye_closed_counter = 0, no_face_counter = 0,
        frame_count = 0, car_running = False, arduino = None, console = [], sent = []\<rparr>"

definition detect_eye_state ::
  "'a car_scheme \<Rightarrow> frame \<Rightarrow> (bool option \<times> status_msg \<times> nat) \<times> 'a car_scheme" where
  "detect_eye_state s faces =
     (case faces of
        [] \<Rightarrow>
          ((Some False, No_driver_detected, 0),
           s\<lparr>no_face_counter := no_face_counter s + 1, eye_closed_counter := 0\<rparr>)
      | f # fs \<Rightarrow>
          (let s1 = s\<lparr>no_face_counter := 0\<rparr>;
               largest_face = max_from f fs;
               n = length (eyes largest_face)
           in if n < 2 then
                (let s2 = s1\<lparr>eye_closed_counter := eye_closed_counter s1 + 1\<rparr>
                 in if eye_closed_counter s2 > EYE_CLOSED_THRESHOLD s2
                    then ((Some False, Eyes_closed_stopped (eye_closed_counter s2), n), s2)
                    else ((None, Checking (eye_closed_counter s2), n), s2))
              else ((Some True, Eyes_open_running n, n), s1\<lparr>eye_closed_counter := 0\<rparr>)))"

text \<open>
  The body of the \<^verbatim>\<open>while\<close> loop of \<^verbatim>\<open>run\<close>, from the frame counter to the car
  control. The \<^verbatim>\<open>if eyes_open is True ... elif eyes_open is False ...\<close> block is
  \<open>control_car\<close>.
\<close>

definition control_car :: "bool option \<Rightarrow> car \<Rightarrow> car" where
  "control_car eyes_open s1 =
     (case eyes_open of
        Some True \<Rightarrow>
          if \<not> car_running s1
          then (let s2 = send_to_arduino ''1'' s1
                in s2\<lparr>car_running := True, console := console s2 @ [Car_started]\<rparr>)
          else s1
      | Some False \<Rightarrow>
          if car_running s1
          then (let s2 = send_to_arduino ''0'' s1
                in s2\<lparr>car_running := False, console := console s2 @ [Car_stopped]\<rparr>)
          else s1
      | None \<Rightarrow> s1)"

definition run_body :: "car \<Rightarrow> frame \<Rightarrow> car" where
  "run_body s faces =
     (case detect_eye_state (s\<lparr>frame_count := frame_count s + 1\<rparr>) faces of
        ((eyes_open, status, eye_count), s1) \<Rightarrow> control_car eyes_open s1)"

text \<open>
  The loop of \<^verbatim>\<open>run\<close> over what the camera and the keyboard deliver: each entry is the
  \<^verbatim>\<open>ret\<close> flag of \<^verbatim>\<open>cap.read()\<close>, the frame, and whether \<open>q\<close> is pressed after it. The
  loop ends at a failed read, at \<open>q\<close>, or (the list exhausted) at a keyboard interrupt.
\<close>

fun run_loop :: "car \<Rightarrow> (bool \<times> frame \<times> bool) list \<Rightarrow> car" where
  "run_loop s [] = s"
| "run_loop s ((ret, faces, quit) # rest) =
     (if \<not> ret then s
      else (let s1 = run_body s faces in if quit then s1 else run_loop s1 rest))"

definition cleanup :: "car \<Rightarrow> car" where
  "cleanup s =
     (let s0 = s\<lparr>console := console s @ [Cleaning_up]\<rparr>;
          s1 = (case arduino s0 of
                  None \<Rightarrow> s0
                | Some p \<Rightarrow>
                    (let s' = send_to_arduino ''0'' s0
                     in s'\<lparr>arduino := map_option serial_close (arduino s')\<rparr>))
      in s1\<lparr>console := console s1 @ [Shut_down]\<rparr>)"

definition run :: "car \<Rightarrow> (bool \<times> frame \<times> bool) list \<Rightarrow> car" where
  "run s events = cleanup (run_loop s events)"

section \<open>eye\_controlled\_car\_with\_voice.py: class EyeControlledCarWithVoice\<close>

text \<open>
  The class repeats the fields and the methods \<^verbatim>\<open>setup_arduino\<close>, \<^verbatim>\<open>send_to_arduino\<close>
  and \<^verbatim>\<open>detect_eye_state\<close> of EyeControlledCar word for word, and adds the voice:
  \<open>voice_active\<close>, whether a text-to-speech engine is there (\<open>tts_engine\<close>), and, as
  instrumentation, the texts passed to \<^verbatim>\<open>say_voice\<close> (\<open>voiced\<close>, one entry per call) and
  those the engine has spoken (\<open>spoken\<close>). An engine that raises while speaking is
  caught by \<^verbatim>\<open>say_voice\<close> and is left out here.
\<close>

record voice_car = car +
  voice_active :: bool
  tts_engine :: bool
  voiced :: "string list"
  spoken :: "string list"

definition say_voice :: "string \<Rightarrow> voice_car \<Rightarrow> voice_car" where
  "say_voice text s =
     (let s0 = s\<lparr>voiced := voiced s @ [text]\<rparr>
      in if tts_engine s0 then s0\<lparr>spoken := spoken s0 @ [text]\<rparr> else s0)"

definition wake_messages :: "string list" where
  "wake_messages =
     [''Hey! Wake up!'',
      ''Open your eyes! Stay alert!'',
      ''Wake up driver! Safety first!'',
      ''Eyes open! Keep driving safely!'',
      ''Alert! Stay awake!'',
      ''Driver! Wake up now!'']"

text \<open>
  What a frame brings to the loop of the voice variant: the faces, the value of
  \<^verbatim>\<open>time.time()\<close> read after detection, and the index \<^verbatim>\<open>random.choice\<close> draws (taken
  modulo the number of messages). Times are seconds, as real numbers.
\<close>

record voice_input =
  vfaces :: frame
  current_time :: real
  choice :: nat

text \<open>
  The body of the loop of \<^verbatim>\<open>run\<close>. The local variable \<^verbatim>\<open>last_voice_time\<close> is carried
  beside the object.
\<close>

definition voice_run_body :: "voice_car \<times> real \<Rightarrow> voice_input \<Rightarrow> voice_car \<times> real" where
  "voice_run_body st inp =
     (case st of (s, last_voice_time) \<Rightarrow>
      case detect_eye_state (s\<lparr>frame_count := frame_count s + 1\<rparr>) (vfaces inp) of
        ((eyes_open, status, eye_count), s1) \<Rightarrow>
          (case eyes_open of
             Some True \<Rightarrow>
               if \<not> car_running s1
               then (let s2 = send_to_arduino ''1'' s1;
                         s3 = s2\<lparr>car_running := True, voice_active := False,
                                 console := console s2 @ [Car_started]\<rparr>
                     in (say_voice ''Good! Car running!'' s3, last_voice_time))
               else (s1, last_voice_time)
           | Some False \<Rightarrow>
               (let s2 = (if car_running s1
                          then (let s' = send_to_arduino ''0'' s1
                                in s'\<lparr>car_running := False, console := console s' @ [Car_stopped]\<rparr>)
                          else s1)
                in if \<not> voice_active s2 \<or> current_time inp - last_voice_time > 3
                   then (say_voice (wake_messages ! (choice inp mod length wake_messages))
                           (s2\<lparr>voice_active := True\<rparr>),
                         current_time inp)
                   else (s2, last_voice_time))
           | None \<Rightarrow> (s1, last_voice_time)))"

fun voice_run_loop :: "voice_car \<times> real \<Rightarrow> (bool \<times> voice_input \<times> bool) list \<Rightarrow> voice_car \<times> real" where
  "voice_run_loop st [] = st"
| "voice_run_loop st ((ret, inp, quit) # rest) =
     (if \<not> ret then st
      else (let st1 = voice_run_body st inp in if quit then st1 else voice_run_loop st1 rest))"

text \<open>\<^verbatim>\<open>__init__\<close>: the argument \<open>engine\<close> says whether \<^verbatim>\<open>setup_voice\<close> got an engine.\<close>

definition init_voice_car :: "bool \<Rightarrow> io_error + serial_port \<Rightarrow> voice_car" where
  "init_voice_car engine opened =
     say_voice ''System ready! Eye controlled car activated!''
       (setup_arduino opened
          \<lparr>EYE_CLOSED_THRESHOLD = 15, eye_closed_counter = 0, no_face_counter = 0,
           frame_count = 0, car_running = False, arduino = None, console = [], sent = [],
           voice_active = False, tts_engine = engine, voiced = [], spoken = []\<rparr>)"

text \<open>\<^verbatim>\<open>run\<close> starts with \<^verbatim>\<open>last_voice_time = 0\<close>.\<close>

definition voice_run_frames :: "voice_car \<Rightarrow> voice_input list \<Rightarrow> voice_car \<times> real" where
  "voice_run_frames s inps = voice_run_loop (s, 0) (map (\<lambda>i. (True, i, False)) inps)"

section \<open>simple\_sleepiness\_detection.py: class SimpleSleepinessDetector\<close>

text \<open>
  The status texts of \<^verbatim>\<open>detect_sleepiness\<close>, by template: "No face detected",
  "Searching for face... (n)", "DROWSINESS ALERT! (n)", "Eyes possibly closed... (n)" and
  "Eyes open (k eyes detected)".
\<close>

datatype simple_status =
    No_face_detected
  | Searching_for_face int
  | Drowsiness_alert int
  | Eyes_possibly_closed int
  | Eyes_open nat

text \<open>The fields carry the prefix \<open>sd\<close>; \<open>sd_sent\<close> is the instrumentation of the calls of
  \<^verbatim>\<open>send_to_arduino\<close>.\<close>

record simple_detector =
  sd_FACE_ABSENT_THRESHOLD :: int
  sd_EYE_CLOSED_THRESHOLD :: int
  sd_face_absent_counter :: int
  sd_eye_closed_counter :: int
  sd_no_face_counter :: int
  sd_arduino :: "serial_port option"
  sd_console :: "print_msg list"
  sd_sent :: "string list"

definition sd_send_to_arduino :: "string \<Rightarrow> simple_detector \<Rightarrow> simple_detector" where
  "sd_send_to_arduino signal s =
     (case link_send signal (sd_arduino s) of
        (link, printed) \<Rightarrow>
          s\<lparr>sd_arduino := link, sd_console := sd_console s @ printed, sd_sent := sd_sent s @ [signal]\<rparr>)"

definition sd_setup_arduino :: "io_error + serial_port \<Rightarrow> simple_detector \<Rightarrow> simple_detector" where
  "sd_setup_arduino opened s =
     (case opened of
        Inr p \<Rightarrow> sd_send_to_arduino ''1''
                   (s\<lparr>sd_arduino := Some p, sd_console := sd_console s @ [Arduino_connected]\<rparr>)
      | Inl e \<Rightarrow> s\<lparr>sd_arduino := None, sd_console := sd_console s @ [Could_not_connect]\<rparr>)"

definition init_simple_detector :: "io_error + serial_port \<Rightarrow> simple_detector" where
  "init_simple_detector opened =
     sd_setup_arduino opened
       \<lparr>sd_FACE_ABSENT_THRESHOLD = 30, sd_EYE_CLOSED_THRESHOLD = 20, sd_face_absent_counter = 0,
        sd_eye_closed_counter = 0, sd_no_face_counter = 0, sd_arduino = None, sd_console = [],
        sd_sent = []\<rparr>"

definition detect_sleepiness :: "simple_detector \<Rightarrow> frame \<Rightarrow> (bool \<times> simple_status) \<times> simple_detector" where
  "detect_sleepiness s faces =
     (case faces of
        [] \<Rightarrow>
          (let s1 = s\<lparr>sd_no_face_counter := sd_no_face_counter s + 1, sd_eye_closed_counter := 0\<rparr>
           in if sd_no_face_counter s1 > sd_FACE_ABSENT_THRESHOLD s1
              then ((False, No_face_detected), s1)
              else ((False, Searching_for_face (sd_no_face_counter s1)), s1))
      | f # fs \<Rightarrow>
          (let s1 = s\<lparr>sd_no_face_counter := 0\<rparr>;
               largest_face = max_from f fs;
               n = length (eyes largest_face)
           in if n < 2 then
                (let s2 = s1\<lparr>sd_eye_closed_counter := sd_eye_closed_counter s1 + 1\<rparr>
                 in if sd_eye_closed_counter s2 > sd_EYE_CLOSED_THRESHOLD s2
                    then ((True, Drowsiness_alert (sd_eye_closed_counter s2)), s2)
                    else ((False, Eyes_possibly_closed (sd_eye_closed_counter s2)), s2))
              else ((False, Eyes_open n), s1\<lparr>sd_eye_closed_counter := 0\<rparr>)))"

definition sd_run_body :: "simple_detector \<Rightarrow> frame \<Rightarrow> simple_detector" where
  "sd_run_body s faces =
     (case detect_sleepiness s faces of
        ((is_sleepy, status), s1) \<Rightarrow>
          if is_sleepy then sd_send_to_arduino ''0'' s1 else sd_send_to_arduino ''1'' s1)"

fun sd_run_loop :: "simple_detector \<Rightarrow> (bool \<times> frame \<times> bool) list \<Rightarrow> simple_detector" where
  "sd_run_loop s [] = s"
| "sd_run_loop s ((ret, faces, quit) # rest) =
     (if \<not> ret then s
      else (let s1 = sd_run_body s faces in if quit then s1 else sd_run_loop s1 rest))"

definition sd_cleanup :: "simple_detector \<Rightarrow> simple_detector" where
  "sd_cleanup s =
     (let s1 = (case sd_arduino s of
                  None \<Rightarrow> s
                | Some p \<Rightarrow>
                    (let s' = sd_send_to_arduino ''1'' s
                     in s'\<lparr>sd_arduino := map_option serial_close (sd_arduino s')\<rparr>))
      in s1\<lparr>sd_console := sd_console s1 @ [Shut_down]\<rparr>)"

section \<open>sleepiness\_detection.py: class SleepinessDetector\<close>

text \<open>
  The continuous mode. Landmark coordinates are integers; distances and ratios are 64-bit
  floats in the source and real numbers here, so rounding is not modelled. What is
  modelled of the floats is the division by a zero distance: numpy gives \<open>inf\<close> or \<open>nan\<close>
  there (no exception), and every comparison \<open>< threshold\<close> with such a value is false.
  An array with fewer than six points makes the indexing raise.
\<close>

type_synonym point = "int \<times> int"

datatype py_error = IndexError

datatype ear_value = Ear real | Not_finite

definition euclidean :: "point \<Rightarrow> point \<Rightarrow> real" where
  "euclidean u v =
     (case (u, v) of ((x1, y1), (x2, y2)) \<Rightarrow>
        sqrt (real_of_int ((x1 - x2) * (x1 - x2) + (y1 - y2) * (y1 - y2))))"

fun calculate_ear :: "point list \<Rightarrow> py_error + ear_value" where
  "calculate_ear (e0 # e1 # e2 # e3 # e4 # e5 # others) =
     (let A = euclidean e1 e5;
          B = euclidean e2 e4;
          C = euclidean e0 e3
      in if 2.0 * C = 0 then Inr Not_finite else Inr (Ear ((A + B) / (2.0 * C))))"
| "calculate_ear few = Inl IndexError"

definition LEFT_EYE_POINTS :: "nat list" where
  "LEFT_EYE_POINTS = [42 ..< 48]"

definition RIGHT_EYE_POINTS :: "nat list" where
  "RIGHT_EYE_POINTS = [36 ..< 42]"

text \<open>A face found by the dlib detector, with the 68 landmarks the predictor gives it
  (\<^verbatim>\<open>shape.part(i)\<close>).\<close>

record dlib_face =
  part :: "nat \<Rightarrow> point"

definition extract_eye_points :: "dlib_face \<Rightarrow> nat list \<Rightarrow> point list" where
  "extract_eye_points shape eye_indices = map (part shape) eye_indices"

text \<open>\<^verbatim>\<open>(left_ear + right_ear) / 2.0\<close> and \<^verbatim>\<open>avg_ear < self.EAR_THRESHOLD\<close> on such values.\<close>

fun average_ear :: "ear_value \<Rightarrow> ear_value \<Rightarrow> ear_value" where
  "average_ear (Ear l) (Ear r) = Ear ((l + r) / 2.0)"
| "average_ear l r = Not_finite"

fun ear_less :: "ear_value \<Rightarrow> real \<Rightarrow> bool" where
  "ear_less (Ear e) t = (e < t)"
| "ear_less Not_finite t = False"

record sleepiness_detector =
  EAR_THRESHOLD :: real
  CONSECUTIVE_FRAMES :: int
  frame_counter :: int
  sleepy_counter :: int
  sl_arduino :: "serial_port option"
  sl_console :: "print_msg list"
  sl_sent :: "string list"

definition sl_send_to_arduino :: "string \<Rightarrow> sleepiness_detector \<Rightarrow> sleepiness_detector" where
  "sl_send_to_arduino signal s =
     (case link_send signal (sl_arduino s) of
        (link, printed) \<Rightarrow>
          s\<lparr>sl_arduino := link, sl_console := sl_console s @ printed, sl_sent := sl_sent s @ [signal]\<rparr>)"

definition sl_setup_arduino :: "io_error + serial_port \<Rightarrow> sleepiness_detector \<Rightarrow> sleepiness_detector" where
  "sl_setup_arduino opened s =
     (case opened of
        Inr p \<Rightarrow> sl_send_to_arduino ''1''
                   (s\<lparr>sl_arduino := Some p, sl_console := sl_console s @ [Arduino_connected]\<rparr>)
      | Inl e \<Rightarrow> s\<lparr>sl_arduino := None, sl_console := sl_console s @ [Could_not_connect]\<rparr>)"

definition init_sleepiness_detector :: "io_error + serial_port \<Rightarrow> sleepiness_detector" where
  "init_sleepiness_detector opened =
     sl_setup_arduino opened
       \<lparr>EAR_THRESHOLD = 0.21, CONSECUTIVE_FRAMES = 20, frame_counter = 0, sleepy_counter = 0,
        sl_arduino = None, sl_console = [], sl_sent = []\<rparr>"

text \<open>The average ratio of a face, as \<^verbatim>\<open>process_frame\<close> computes it.\<close>

definition avg_ear_of :: "dlib_face \<Rightarrow> py_error + ear_value" where
  "avg_ear_of face =
     (case calculate_ear (extract_eye_points face LEFT_EYE_POINTS) of
        Inl e \<Rightarrow> Inl e
      | Inr left_ear \<Rightarrow>
          (case calculate_ear (extract_eye_points face RIGHT_EYE_POINTS) of
             Inl e \<Rightarrow> Inl e
           | Inr right_ear \<Rightarrow> Inr (average_ear left_ear right_ear)))"

text \<open>The body of the loop \<^verbatim>\<open>for face in faces\<close> of \<^verbatim>\<open>process_frame\<close>.\<close>

definition process_face :: "sleepiness_detector \<Rightarrow> dlib_face \<Rightarrow> py_error + sleepiness_detector" where
  "process_face s face =
     (case avg_ear_of face of
        Inl e \<Rightarrow> Inl e
      | Inr avg_ear \<Rightarrow>
          if ear_less avg_ear (EAR_THRESHOLD s) then
            (let s1 = s\<lparr>frame_counter := frame_counter s + 1\<rparr>
             in if frame_counter s1 \<ge> CONSECUTIVE_FRAMES s1
                then Inr (sl_send_to_arduino ''0'' (s1\<lparr>sleepy_counter := sleepy_counter s1 + 1\<rparr>))
                else Inr s1)
          else Inr (sl_send_to_arduino ''1'' (s\<lparr>frame_counter := 0\<rparr>)))"

fun process_frame :: "sleepiness_detector \<Rightarrow> dlib_face list \<Rightarrow> py_error + sleepiness_detector" where
  "process_frame s [] = Inr s"
| "process_frame s (face # faces) =
     (case process_face s face of
        Inl e \<Rightarrow> Inl e
      | Inr s1 \<Rightarrow> process_frame s1 faces)"

definition sl_cleanup :: "sleepiness_detector \<Rightarrow> sleepiness_detector" where
  "sl_cleanup s =
     (let s0 = s\<lparr>sl_console := sl_console s @ [Cleaning_up]\<rparr>;
          s1 = (case sl_arduino s0 of
                  None \<Rightarrow> s0
                | Some p \<Rightarrow>
                    (let s' = sl_send_to_arduino ''1'' s0
                     in s'\<lparr>sl_arduino := map_option serial_close (sl_arduino s')\<rparr>))
      in s1\<lparr>sl_console := sl_console s1 @ [Shut_down]\<rparr>)"

section \<open>Vocabulary of the properties\<close>

text \<open>
  Kinds of frame in the discrete mode: the largest face shows fewer than two eyes
  (closed-eye evidence), or at least two (open eyes). A frame without a face is \<open>[]\<close>.
\<close>

definition eye_count_of :: "frame \<Rightarrow> nat" where
  "eye_count_of faces = (case faces of [] \<Rightarrow> 0 | f # fs \<Rightarrow> length (eyes (max_from f fs)))"

definition closed_frame :: "frame \<Rightarrow> bool" where
  "closed_frame faces = (faces \<noteq> [] \<and> eye_count_of faces < 2)"

definition open_frame :: "frame \<Rightarrow> bool" where
  "open_frame faces = (faces \<noteq> [] \<and> 2 \<le> eye_count_of faces)"

text \<open>The counter predicate: both counters nonnegative and at least one of them 0.\<close>

definition counters_ok :: "'a car_scheme \<Rightarrow> bool" where
  "counters_ok s =
     (0 \<le> eye_closed_counter s \<and> 0 \<le> no_face_counter s
      \<and> (eye_closed_counter s = 0 \<or> no_face_counter s = 0))"

definition sd_counters_ok :: "simple_detector \<Rightarrow> bool" where
  "sd_counters_ok s =
     (0 \<le> sd_eye_closed_counter s \<and> 0 \<le> sd_no_face_counter s
      \<and> (sd_eye_closed_counter s = 0 \<or> sd_no_face_counter s = 0))"

text \<open>
  The outcomes of successive calls of \<^verbatim>\<open>detect_eye_state\<close>, one per frame, each call
  starting from the counters the one before left.
\<close>

fun observe_seq :: "car \<Rightarrow> frame list \<Rightarrow> (bool option \<times> status_msg \<times> nat) list" where
  "observe_seq s [] = []"
| "observe_seq s (faces # rest) =
     (case detect_eye_state s faces of (r, s1) \<Rightarrow> r # observe_seq s1 rest)"

text \<open>
  In the continuous mode \<^verbatim>\<open>process_frame\<close> returns no outcome: what it decides shows in
  the signals it sends. \<open>signals_seq\<close> lists, for successive frames, the signals sent
  while the frame is processed: \<open>[''0'']\<close> is the closed-eyes outcome, \<open>[''1'']\<close> the
  open-eyes outcome, \<open>[]\<close> the outcome in between. The list stops at a frame that raises.
\<close>

fun signals_seq :: "sleepiness_detector \<Rightarrow> dlib_face list list \<Rightarrow> string list list" where
  "signals_seq s [] = []"
| "signals_seq s (faces # rest) =
     (case process_frame s faces of
        Inl e \<Rightarrow> []
      | Inr s1 \<Rightarrow> drop (length (sl_sent s)) (sl_sent s1) # signals_seq s1 rest)"

text \<open>A face whose average eye aspect ratio is below, or not below, a threshold.\<close>

definition ear_below :: "real \<Rightarrow> dlib_face \<Rightarrow> bool" where
  "ear_below t face = (case avg_ear_of face of Inl e \<Rightarrow> False | Inr v \<Rightarrow> ear_less v t)"

definition ear_not_below :: "real \<Rightarrow> dlib_face \<Rightarrow> bool" where
  "ear_not_below t face = (case avg_ear_of face of Inl e \<Rightarrow> False | Inr v \<Rightarrow> \<not> ear_less v t)"

text \<open>
  Two faces to run the continuous mode on. In \<open>shut_face\<close> the upper and lower lid
  points of both eyes coincide and the corners are 6 apart (ratio 0); in \<open>wide_face\<close>
  the lids are as far apart as the corners (ratio 1).
\<close>

definition shut_face :: dlib_face where
  "shut_face = \<lparr>part = (\<lambda>i. if i mod 6 = 3 then (6, 0) else (0, 0))\<rparr>"

definition wide_face :: dlib_face where
  "wide_face =
     \<lparr>part = (\<lambda>i. if i mod 6 = 0 then (0, 3)
                   else if i mod 6 = 1 then (2, 6)
                   else if i mod 6 = 2 then (4, 6)
                   else if i mod 6 = 3 then (6, 3)
                   else if i mod 6 = 4 then (4, 0)
                   else (2, 0))\<rparr>"

text \<open>A face of the discrete mode with \<open>n\<close> eyes found in it.\<close>

definition face_with_eyes :: "nat \<Rightarrow> detected_face" where
  "face_with_eyes n = \<lparr>box = (0, 0, 100, 100), eyes = replicate n (0, 0, 10, 10)\<rparr>"

text \<open>A port as \<^verbatim>\<open>serial.Serial\<close> returns it: open, nothing written, no failure ahead.\<close>

definition fresh_port :: serial_port where
  "fresh_port = \<lparr>is_open = True, wire = [], write_calls = 0, faults = []\<rparr>"

text \<open>A camera that delivers the given frames, each read succeeding and no key pressed.\<close>

definition frames_read :: "'f list \<Rightarrow> (bool \<times> 'f \<times> bool) list" where
  "frames_read frs = map (\<lambda>f. (True, f, False)) frs"

text \<open>A port whose first write succeeds and whose second write raises.\<close>

definition flaky_port :: serial_port where
  "flaky_port = \<lparr>is_open = True, wire = [], write_calls = 0, faults = [False, True]\<rparr>"

text \<open>What of the car object the control depends on and acts on, the link and the console
  left out.\<close>

definition control_state :: "car \<Rightarrow> int \<times> int \<times> int \<times> int \<times> bool \<times> string list" where
  "control_state s =
     (EYE_CLOSED_THRESHOLD s, eye_closed_counter s, no_face_counter s, frame_count s,
      car_running s, sent s)"

text \<open>
  Kinds of frame by the outcome \<^verbatim>\<open>detect_eye_state\<close> gives them in a state: the stop
  outcomes (no face, or closed-eye evidence that takes the counter over the threshold) and
  the uncertain outcome (closed-eye evidence with the counter still within the threshold).
\<close>

definition stop_outcome :: "'a car_scheme \<Rightarrow> frame \<Rightarrow> bool" where
  "stop_outcome s faces =
     (faces = [] \<or> (closed_frame faces \<and> EYE_CLOSED_THRESHOLD s < eye_closed_counter s + 1))"

definition uncertain_outcome :: "'a car_scheme \<Rightarrow> frame \<Rightarrow> bool" where
  "uncertain_outcome s faces =
     (closed_frame faces \<and> \<not> EYE_CLOSED_THRESHOLD s < eye_closed_counter s + 1)"

text \<open>While the car runs no alert is pending: \<open>voice_active\<close> is false.\<close>

definition quiet_while_running :: "voice_car \<Rightarrow> bool" where
  "quiet_while_running s = (car_running s \<longrightarrow> \<not> voice_active s)"

section \<open>Basic facts about the steps\<close>

lemma process_face_below:
  "ear_below (EAR_THRESHOLD s) face \<Longrightarrow>
   process_face s face =
     Inr (if frame_counter s + 1 \<ge> CONSECUTIVE_FRAMES s
          then sl_send_to_arduino ''0''
                 (s\<lparr>frame_counter := frame_counter s + 1, sleepy_counter := sleepy_counter s + 1\<rparr>)
          else s\<lparr>frame_counter := frame_counter s + 1\<rparr>)"
  by (auto simp: ear_below_def process_face_def Let_def split: sum.splits)

lemma process_face_not_below:
  "ear_not_below (EAR_THRESHOLD s) face \<Longrightarrow>
   process_face s face = Inr (sl_send_to_arduino ''1'' (s\<lparr>frame_counter := 0\<rparr>))"
  by (auto simp: ear_not_below_def process_face_def Let_def split: sum.splits)

lemma sl_send_fields:
  "sl_sent (sl_send_to_arduino sig s) = sl_sent s @ [sig]"
  "frame_counter (sl_send_to_arduino sig s) = frame_counter s"
  "sleepy_counter (sl_send_to_arduino sig s) = sleepy_counter s"
  "EAR_THRESHOLD (sl_send_to_arduino sig s) = EAR_THRESHOLD s"
  "CONSECUTIVE_FRAMES (sl_send_to_arduino sig s) = CONSECUTIVE_FRAMES s"
  by (simp_all add: sl_send_to_arduino_def split: prod.splits)

lemma signals_seq_closed:
  "\<forall>face \<in> set fcs. ear_below (EAR_THRESHOLD s) face \<Longrightarrow>
   length (signals_seq s (map (\<lambda>f. [f]) fcs)) = length fcs \<and>
   (\<forall>k < length fcs.
      signals_seq s (map (\<lambda>f. [f]) fcs) ! k =
        (if frame_counter s + int k + 1 \<ge> CONSECUTIVE_FRAMES s then [''0''] else []))"
proof (induction fcs arbitrary: s)
  case Nil
  then show ?case by simp
next
  case (Cons face rest)
  define s1 where "s1 = (if frame_counter s + 1 \<ge> CONSECUTIVE_FRAMES s
          then sl_send_to_arduino ''0''
                 (s\<lparr>frame_counter := frame_counter s + 1, sleepy_counter := sleepy_counter s + 1\<rparr>)
          else s\<lparr>frame_counter := frame_counter s + 1\<rparr>)"
  have step: "process_face s face = Inr s1"
    using Cons.prems by (simp add: process_face_below s1_def)
  have keep: "EAR_THRESHOLD s1 = EAR_THRESHOLD s" "CONSECUTIVE_FRAMES s1 = CONSECUTIVE_FRAMES s"
    "frame_counter s1 = frame_counter s + 1"
    by (simp_all add: s1_def sl_send_fields)
  have sig: "drop (length (sl_sent s)) (sl_sent s1) =
       (if frame_counter s + 1 \<ge> CONSECUTIVE_FRAMES s then [''0''] else [])"
    by (simp add: s1_def sl_send_fields)
  have rest: "\<forall>face \<in> set rest. ear_below (EAR_THRESHOLD s1) face"
    using Cons.prems by (simp add: keep)
  note IH = Cons.IH [OF rest]
  show ?case
  proof (intro conjI allI impI)
    show "length (signals_seq s (map (\<lambda>f. [f]) (face # rest))) = length (face # rest)"
      using IH by (simp add: step)
  next
    fix k assume k: "k < length (face # rest)"
    show "signals_seq s (map (\<lambda>f. [f]) (face # rest)) ! k =
        (if frame_counter s + int k + 1 \<ge> CONSECUTIVE_FRAMES s then [''0''] else [])"
    proof (cases k)
      case 0
      then show ?thesis using sig by (simp add: step)
    next
      case (Suc j)
      then have "j < length rest" using k by simp
      with IH have "signals_seq s1 (map (\<lambda>f. [f]) rest) ! j =
        (if frame_counter s1 + int j + 1 \<ge> CONSECUTIVE_FRAMES s1 then [''0''] else [])"
        by blast
      then show ?thesis using Suc by (simp add: step keep add.commute add.left_commute)
    qed
  qed
qed

lemma detect_closed_frame:
  "closed_frame faces \<Longrightarrow>
   detect_eye_state s faces =
     ((if eye_closed_counter s + 1 > EYE_CLOSED_THRESHOLD s then Some False else None,
       if eye_closed_counter s + 1 > EYE_CLOSED_THRESHOLD s
       then Eyes_closed_stopped (eye_closed_counter s + 1)
       else Checking (eye_closed_counter s + 1),
       eye_count_of faces),
      s\<lparr>no_face_counter := 0, eye_closed_counter := eye_closed_counter s + 1\<rparr>)"
  by (cases faces) (auto simp: closed_frame_def eye_count_of_def detect_eye_state_def Let_def)

lemma detect_open_frame:
  "open_frame faces \<Longrightarrow>
   detect_eye_state s faces =
     ((Some True, Eyes_open_running (eye_count_of faces), eye_count_of faces),
      s\<lparr>no_face_counter := 0, eye_closed_counter := 0\<rparr>)"
  by (cases faces) (auto simp: open_frame_def eye_count_of_def detect_eye_state_def Let_def)

lemma length_observe_seq: "length (observe_seq s frs) = length frs"
  by (induction frs arbitrary: s) (auto split: prod.splits)

lemma observe_seq_closed:
  "\<forall>faces \<in> set frs. closed_frame faces \<Longrightarrow> k < length frs \<Longrightarrow>
   observe_seq s frs ! k =
     (if eye_closed_counter s + int k + 1 > EYE_CLOSED_THRESHOLD s then Some False else None,
      if eye_closed_counter s + int k + 1 > EYE_CLOSED_THRESHOLD s
      then Eyes_closed_stopped (eye_closed_counter s + int k + 1)
      else Checking (eye_closed_counter s + int k + 1),
      eye_count_of (frs ! k))"
proof (induction frs arbitrary: s k)
  case Nil
  then show ?case by simp
next
  case (Cons faces rest)
  have step: "detect_eye_state s faces =
     ((if eye_closed_counter s + 1 > EYE_CLOSED_THRESHOLD s then Some False else None,
       if eye_closed_counter s + 1 > EYE_CLOSED_THRESHOLD s
       then Eyes_closed_stopped (eye_closed_counter s + 1)
       else Checking (eye_closed_counter s + 1),
       eye_count_of faces),
      s\<lparr>no_face_counter := 0, eye_closed_counter := eye_closed_counter s + 1\<rparr>)"
    using Cons.prems(1) by (simp add: detect_closed_frame)
  show ?case
  proof (cases k)
    case 0
    then show ?thesis by (simp add: step)
  next
    case (Suc j)
    have "j < length rest" using Cons.prems(2) Suc by simp
    moreover have "\<forall>faces \<in> set rest. closed_frame faces" using Cons.prems(1) by simp
    ultimately show ?thesis
      using Cons.IH [of j "s\<lparr>no_face_counter := 0, eye_closed_counter := eye_closed_counter s + 1\<rparr>"] Suc
      by (simp add: step add.commute add.left_commute)
  qed
qed

lemma avg_ear_shut_face: "avg_ear_of shut_face = Inr (Ear 0)"
  by (simp add: avg_ear_of_def shut_face_def extract_eye_points_def LEFT_EYE_POINTS_def
        RIGHT_EYE_POINTS_def euclidean_def upt_rec)

lemma avg_ear_wide_face: "avg_ear_of wide_face = Inr (Ear 1)"
  by (simp add: avg_ear_of_def wide_face_def extract_eye_points_def LEFT_EYE_POINTS_def
        RIGHT_EYE_POINTS_def euclidean_def upt_rec)

lemma closed_frame_no_eyes: "closed_frame [face_with_eyes 0]" "closed_frame [face_with_eyes 1]"
  by (simp_all add: closed_frame_def eye_count_of_def face_with_eyes_def)

lemma open_frame_two_eyes: "open_frame [face_with_eyes 2]"
  by (simp add: open_frame_def eye_count_of_def face_with_eyes_def)

lemma init_fields:
  "EYE_CLOSED_THRESHOLD (init_car (Inl e)) = 15"
  "eye_closed_counter (init_car (Inl e)) = 0"
  "no_face_counter (init_car (Inl e)) = 0"
  "car_running (init_car (Inl e)) = False"
  "arduino (init_car (Inl e)) = None"
  "sent (init_car (Inl e)) = []"
  by (simp_all add: init_car_def setup_arduino_def)

lemma sl_init_fields:
  "EAR_THRESHOLD (init_sleepiness_detector (Inl e)) = 0.21"
  "CONSECUTIVE_FRAMES (init_sleepiness_detector (Inl e)) = 20"
  "frame_counter (init_sleepiness_detector (Inl e)) = 0"
  "sl_arduino (init_sleepiness_detector (Inl e)) = None"
  "sl_sent (init_sleepiness_detector (Inl e)) = []"
  by (simp_all add: init_sleepiness_detector_def sl_setup_arduino_def)

lemma send_fields:
  "sent (send_to_arduino sig s) = sent s @ [sig]"
  "car_running (send_to_arduino sig s) = car_running s"
  "eye_closed_counter (send_to_arduino sig s) = eye_closed_counter s"
  "no_face_counter (send_to_arduino sig s) = no_face_counter s"
  "frame_count (send_to_arduino sig s) = frame_count s"
  "EYE_CLOSED_THRESHOLD (send_to_arduino sig s) = EYE_CLOSED_THRESHOLD s"
  by (simp_all add: send_to_arduino_def split: prod.splits)

lemma sd_send_fields:
  "sd_sent (sd_send_to_arduino sig s) = sd_sent s @ [sig]"
  "sd_eye_closed_counter (sd_send_to_arduino sig s) = sd_eye_closed_counter s"
  "sd_no_face_counter (sd_send_to_arduino sig s) = sd_no_face_counter s"
  "sd_EYE_CLOSED_THRESHOLD (sd_send_to_arduino sig s) = sd_EYE_CLOSED_THRESHOLD s"
  by (simp_all add: sd_send_to_arduino_def split: prod.splits)

lemma control_car_fields:
  "car_running (control_car (Some True) s)"
  "\<not> car_running (control_car (Some False) s)"
  "control_car None s = s"
  "sent (control_car (Some True) s) = sent s @ (if car_running s then [] else [''1''])"
  "sent (control_car (Some False) s) = sent s @ (if car_running s then [''0''] else [])"
  by (simp_all add: control_car_def Let_def send_fields)

lemma run_body_open:
  "open_frame faces \<Longrightarrow>
   car_running (run_body s faces) \<and>
   sent (run_body s faces) = sent s @ (if car_running s then [] else [''1''])"
  by (simp add: run_body_def detect_open_frame control_car_fields)

lemma run_body_no_face:
  "\<not> car_running (run_body s []) \<and>
   sent (run_body s []) = sent s @ (if car_running s then [''0''] else [])"
  by (simp add: run_body_def detect_eye_state_def control_car_fields)

lemma run_body_closed:
  "closed_frame faces \<Longrightarrow>
   car_running (run_body s faces) =
     (if EYE_CLOSED_THRESHOLD s < eye_closed_counter s + 1 then False else car_running s) \<and>
   sent (run_body s faces) =
     sent s @ (if EYE_CLOSED_THRESHOLD s < eye_closed_counter s + 1 \<and> car_running s
               then [''0''] else [])"
  by (simp add: run_body_def detect_closed_frame control_car_fields)

lemma sd_detect_sleepy:
  "fst (fst (detect_sleepiness d faces)) =
     (closed_frame faces \<and> sd_EYE_CLOSED_THRESHOLD d < sd_eye_closed_counter d + 1)"
  by (cases faces) (auto simp: detect_sleepiness_def closed_frame_def eye_count_of_def Let_def)

lemma sd_detect_keeps_sent: "sd_sent (snd (detect_sleepiness d faces)) = sd_sent d"
  by (cases faces) (auto simp: detect_sleepiness_def Let_def)

lemma sd_run_body_sent:
  "sd_sent (sd_run_body d faces) =
     sd_sent d @ [if closed_frame faces \<and> sd_EYE_CLOSED_THRESHOLD d < sd_eye_closed_counter d + 1
                  then ''0'' else ''1'']"
  using sd_detect_sleepy [of d faces] sd_detect_keeps_sent [of d faces]
  by (auto simp: sd_run_body_def sd_send_fields split: prod.splits)

lemma link_send_fresh:
  "link_send sig (Some \<lparr>is_open = True, wire = w, write_calls = n, faults = []\<rparr>) =
     (Some \<lparr>is_open = True, wire = w @ sig, write_calls = Suc n, faults = []\<rparr>, [])"
  by (simp add: link_send_def serial_write_def)

lemma run_loop_frames_read_Cons:
  "run_loop s (frames_read (faces # rest)) = run_loop (run_body s faces) (frames_read rest)"
  by (simp add: frames_read_def)

lemma sd_run_loop_frames_read_Cons:
  "sd_run_loop d (frames_read (faces # rest)) = sd_run_loop (sd_run_body d faces) (frames_read rest)"
  by (simp add: frames_read_def)

lemma run_loop_open_running:
  "\<forall>faces \<in> set frs. open_frame faces \<Longrightarrow> car_running s \<Longrightarrow>
   car_running (run_loop s (frames_read frs)) \<and> sent (run_loop s (frames_read frs)) = sent s"
proof (induction frs arbitrary: s)
  case Nil
  then show ?case by (simp add: frames_read_def)
next
  case (Cons faces rest)
  have o: "open_frame faces" using Cons.prems(1) by simp
  have step: "car_running (run_body s faces)" "sent (run_body s faces) = sent s"
    using run_body_open [OF o, of s] Cons.prems(2) by simp_all
  have "\<forall>faces \<in> set rest. open_frame faces" using Cons.prems(1) by simp
  from Cons.IH [OF this step(1)] show ?case
    by (simp add: run_loop_frames_read_Cons step(2))
qed

lemma run_loop_open:
  assumes "frs \<noteq> []" and "\<forall>faces \<in> set frs. open_frame faces"
  shows "car_running (run_loop s (frames_read frs)) \<and>
         sent (run_loop s (frames_read frs)) = sent s @ (if car_running s then [] else [''1''])"
proof -
  from assms(1) obtain faces rest where frs: "frs = faces # rest" by (cases frs) auto
  have o: "open_frame faces" using assms(2) frs by simp
  have step: "car_running (run_body s faces)"
    "sent (run_body s faces) = sent s @ (if car_running s then [] else [''1''])"
    using run_body_open [OF o, of s] by simp_all
  have "\<forall>faces \<in> set rest. open_frame faces" using assms(2) frs by simp
  from run_loop_open_running [OF this step(1)] show ?thesis
    by (simp add: frs run_loop_frames_read_Cons step(2))
qed

lemma open_not_closed: "open_frame faces \<Longrightarrow> \<not> closed_frame faces"
  by (simp add: open_frame_def closed_frame_def)

lemma sd_run_loop_open:
  "\<forall>faces \<in> set frs. open_frame faces \<Longrightarrow>
   sd_sent (sd_run_loop d (frames_read frs)) = sd_sent d @ replicate (length frs) ''1''"
proof (induction frs arbitrary: d)
  case Nil
  then show ?case by (simp add: frames_read_def)
next
  case (Cons faces rest)
  have o: "\<not> closed_frame faces" using Cons.prems by (simp add: open_not_closed)
  have step: "sd_sent (sd_run_body d faces) = sd_sent d @ [''1'']"
    using o by (simp add: sd_run_body_sent)
  have "\<forall>faces \<in> set rest. open_frame faces" using Cons.prems by simp
  from Cons.IH [OF this, of "sd_run_body d faces"] show ?case
    by (simp add: sd_run_loop_frames_read_Cons step replicate_app_Cons_same)
qed

lemma signals_seq_open:
  "\<forall>face \<in> set fcs. ear_not_below (EAR_THRESHOLD d) face \<Longrightarrow>
   signals_seq d (map (\<lambda>f. [f]) fcs) = replicate (length fcs) [''1'']"
proof (induction fcs arbitrary: d)
  case Nil
  then show ?case by simp
next
  case (Cons face rest)
  have step: "process_face d face = Inr (sl_send_to_arduino ''1'' (d\<lparr>frame_counter := 0\<rparr>))"
    using Cons.prems by (simp add: process_face_not_below)
  have "\<forall>face \<in> set rest.
          ear_not_below (EAR_THRESHOLD (sl_send_to_arduino ''1'' (d\<lparr>frame_counter := 0\<rparr>))) face"
    using Cons.prems by (simp add: sl_send_fields)
  from Cons.IH [OF this] show ?case
    by (simp add: step sl_send_fields)
qed

lemma detect_link_free:
  "control_state (snd (detect_eye_state s faces)) = control_state (snd (detect_eye_state t faces))
   \<and> fst (detect_eye_state s faces) = fst (detect_eye_state t faces)"
  if "control_state s = control_state t"
  using that by (cases faces) (auto simp: control_state_def detect_eye_state_def Let_def)

lemma control_car_link_free:
  "control_state s = control_state t \<Longrightarrow>
   control_state (control_car r s) = control_state (control_car r t)"
  by (auto simp: control_state_def control_car_def Let_def send_fields
        split: option.splits bool.splits)

lemma run_body_link_free:
  assumes "control_state s = control_state t"
  shows "control_state (run_body s faces) = control_state (run_body t faces)"
proof -
  have c: "control_state (s\<lparr>frame_count := frame_count s + 1\<rparr>)
         = control_state (t\<lparr>frame_count := frame_count t + 1\<rparr>)"
    using assms by (simp add: control_state_def)
  obtain r s1 where ds: "detect_eye_state (s\<lparr>frame_count := frame_count s + 1\<rparr>) faces = (r, s1)"
    by (cases "detect_eye_state (s\<lparr>frame_count := frame_count s + 1\<rparr>) faces") auto
  obtain r' t1 where dt: "detect_eye_state (t\<lparr>frame_count := frame_count t + 1\<rparr>) faces = (r', t1)"
    by (cases "detect_eye_state (t\<lparr>frame_count := frame_count t + 1\<rparr>) faces") auto
  from detect_link_free [OF c, of faces] ds dt
  have same: "r = r'" "control_state s1 = control_state t1" by simp_all
  obtain e st n where r: "r = (e, st, n)" by (cases r) auto
  show ?thesis
    using control_car_link_free [OF same(2), of e]
    by (simp add: run_body_def ds dt same(1)[symmetric] r)
qed

lemma run_loop_link_free:
  "control_state s = control_state t \<Longrightarrow>
   control_state (run_loop s events) = control_state (run_loop t events)"
proof (induction events arbitrary: s t)
  case Nil
  then show ?case by simp
next
  case (Cons ev rest)
  obtain ret faces quit where ev: "ev = (ret, faces, quit)" by (cases ev) auto
  have b: "control_state (run_body s faces) = control_state (run_body t faces)"
    using Cons.prems by (rule run_body_link_free)
  show ?case using Cons.prems b Cons.IH [OF b] by (simp add: ev Let_def)
qed

lemma send_offline: "arduino s = None \<Longrightarrow> send_to_arduino signal s = s\<lparr>sent := sent s @ [signal]\<rparr>"
  by (simp add: send_to_arduino_def link_send_def)

lemma detect_keeps_link:
  "arduino (snd (detect_eye_state s faces)) = arduino s"
  "console (snd (detect_eye_state s faces)) = console s"
  by (cases faces; simp add: detect_eye_state_def Let_def)+

lemma control_car_offline:
  "arduino s = None \<Longrightarrow>
   arduino (control_car r s) = None \<and> Error_sending \<notin> set (console (control_car r s)) - set (console s)"
  by (auto simp: control_car_def Let_def send_offline split: option.splits bool.splits)

lemma run_body_offline:
  "arduino s = None \<Longrightarrow>
   arduino (run_body s faces) = None
   \<and> (Error_sending \<in> set (console (run_body s faces)) \<longleftrightarrow> Error_sending \<in> set (console s))"
proof -
  assume off: "arduino s = None"
  obtain r s1 where ds: "detect_eye_state (s\<lparr>frame_count := frame_count s + 1\<rparr>) faces = (r, s1)"
    by (cases "detect_eye_state (s\<lparr>frame_count := frame_count s + 1\<rparr>) faces") auto
  obtain e st n where r: "r = (e, st, n)" by (cases r) auto
  have s1: "arduino s1 = None" "console s1 = console s"
    using detect_keeps_link [of "s\<lparr>frame_count := frame_count s + 1\<rparr>" faces] off ds by simp_all
  show ?thesis
    by (auto simp: run_body_def ds r control_car_def Let_def send_offline s1
          split: option.splits bool.splits)
qed

lemma run_loop_offline:
  "arduino s = None \<Longrightarrow>
   arduino (run_loop s events) = None
   \<and> (Error_sending \<in> set (console (run_loop s events)) \<longleftrightarrow> Error_sending \<in> set (console s))"
proof (induction events arbitrary: s)
  case Nil
  then show ?case by simp
next
  case (Cons ev rest)
  obtain ret faces quit where ev: "ev = (ret, faces, quit)" by (cases ev) auto
  note b = run_body_offline [OF Cons.prems, of faces]
  from b have off: "arduino (run_body s faces) = None" by simp
  show ?case using Cons.prems b Cons.IH [OF off] by (simp add: ev Let_def)
qed

lemma cleanup_fields:
  "car_running (cleanup s) = car_running s"
  "eye_closed_counter (cleanup s) = eye_closed_counter s"
  "no_face_counter (cleanup s) = no_face_counter s"
  by (simp_all add: cleanup_def Let_def send_fields split: option.splits)

lemma cleanup_offline:
  "arduino s = None \<Longrightarrow> cleanup s = s\<lparr>console := console s @ [Cleaning_up, Shut_down]\<rparr>"
  by (simp add: cleanup_def Let_def)

lemma link_send_failure:
  "is_open p \<Longrightarrow> faults p = True # fs \<Longrightarrow>
   link_send signal (Some p) =
     (Some (p\<lparr>write_calls := Suc (write_calls p), faults := fs\<rparr>), [Error_sending])"
  by (simp add: link_send_def serial_write_def)

lemma link_send_open:
  "is_open p \<Longrightarrow>
   map_option is_open (fst (link_send signal (Some p))) = Some True
   \<and> map_option write_calls (fst (link_send signal (Some p))) = Some (Suc (write_calls p))"
  by (auto simp: link_send_def serial_write_def split: list.splits)

lemma send_link:
  "arduino (send_to_arduino signal s) = fst (link_send signal (arduino s))"
  "console (send_to_arduino signal s) = console s @ snd (link_send signal (arduino s))"
  by (simp_all add: send_to_arduino_def split: prod.splits)

lemma sl_send_link:
  "sl_arduino (sl_send_to_arduino signal d) = fst (link_send signal (sl_arduino d))"
  "sl_console (sl_send_to_arduino signal d) = sl_console d @ snd (link_send signal (sl_arduino d))"
  by (simp_all add: sl_send_to_arduino_def split: prod.splits)

lemma flaky_after_init:
  "arduino (init_car (Inr flaky_port))
     = Some \<lparr>is_open = True, wire = ''0'', write_calls = 1, faults = [True]\<rparr>"
  "sl_arduino (init_sleepiness_detector (Inr flaky_port))
     = Some \<lparr>is_open = True, wire = ''1'', write_calls = 1, faults = [True]\<rparr>"
  by (simp_all add: init_car_def setup_arduino_def send_to_arduino_def
        init_sleepiness_detector_def sl_setup_arduino_def sl_send_to_arduino_def
        link_send_def serial_write_def flaky_port_def)

lemma init_car_start:
  "eye_closed_counter (init_car opened) = 0"
  "no_face_counter (init_car opened) = 0"
  "\<not> car_running (init_car opened)"
  by (cases opened; simp add: init_car_def setup_arduino_def send_fields)+

lemma init_sleepiness_start:
  "frame_counter (init_sleepiness_detector opened) = 0"
  "sleepy_counter (init_sleepiness_detector opened) = 0"
  by (cases opened; simp add: init_sleepiness_detector_def sl_setup_arduino_def sl_send_fields)+

lemma link_send_present:
  "map_option is_open (fst (link_send signal (Some p))) = Some (is_open p)"
  by (auto simp: link_send_def serial_write_def split: list.splits)

lemma link_send_healthy:
  "is_open p \<Longrightarrow> faults p = [] \<Longrightarrow>
   link_send signal (Some p)
     = (Some (p\<lparr>wire := wire p @ signal, write_calls := Suc (write_calls p)\<rparr>), [])"
  by (simp add: link_send_def serial_write_def)

lemma cleanup_present:
  "arduino s = Some p \<Longrightarrow>
   sent (cleanup s) = sent s @ [''0'']
   \<and> arduino (cleanup s) = map_option serial_close (fst (link_send ''0'' (Some p)))"
  by (simp add: cleanup_def Let_def send_fields send_link)

lemma sl_cleanup_present:
  "sl_arduino d = Some p \<Longrightarrow>
   sl_sent (sl_cleanup d) = sl_sent d @ [''1'']
   \<and> sl_arduino (sl_cleanup d) = map_option serial_close (fst (link_send ''1'' (Some p)))"
  by (simp add: sl_cleanup_def Let_def sl_send_fields sl_send_link)

lemma closed_after_close:
  "map_option is_open (map_option serial_close (fst (link_send signal (Some p)))) = Some False"
  by (auto simp: link_send_def serial_write_def serial_close_def split: list.splits)

lemma fresh_after_init:
  "arduino (init_car (Inr fresh_port))
     = Some \<lparr>is_open = True, wire = ''0'', write_calls = 1, faults = []\<rparr>"
  "sl_arduino (init_sleepiness_detector (Inr fresh_port))
     = Some \<lparr>is_open = True, wire = ''1'', write_calls = 1, faults = []\<rparr>"
  "sent (init_car (Inr fresh_port)) = [''0'']"
  "sl_sent (init_sleepiness_detector (Inr fresh_port)) = [''1'']"
  by (simp_all add: init_car_def setup_arduino_def send_to_arduino_def
        init_sleepiness_detector_def sl_setup_arduino_def sl_send_to_arduino_def
        link_send_def serial_write_def fresh_port_def)

lemma say_voice_fields:
  "voiced (say_voice text s) = voiced s @ [text]"
  "voice_active (say_voice text s) = voice_active s"
  "car_running (say_voice text s) = car_running s"
  "sent (say_voice text s) = sent s"
  by (simp_all add: say_voice_def Let_def)

lemma send_voice_fields:
  "voiced (send_to_arduino sig s) = voiced s"
  "voice_active (send_to_arduino sig s) = voice_active s"
  by (simp_all add: send_to_arduino_def split: prod.splits)

lemma voice_detect_stop:
  assumes "vfaces inp = []
           \<or> (closed_frame (vfaces inp) \<and> EYE_CLOSED_THRESHOLD s < eye_closed_counter s + 1)"
  shows "fst (fst (detect_eye_state (s\<lparr>frame_count := frame_count s + 1\<rparr>) (vfaces inp))) = Some False"
proof (cases "vfaces inp = []")
  case True
  then show ?thesis by (simp add: detect_eye_state_def)
next
  case False
  with assms have c: "closed_frame (vfaces inp)"
    and over: "EYE_CLOSED_THRESHOLD s < eye_closed_counter s + 1"
    by simp_all
  show ?thesis using over by (simp add: detect_closed_frame [OF c])
qed

lemma voice_detect_keeps:
  "voiced (snd (detect_eye_state s faces)) = voiced s"
  "voice_active (snd (detect_eye_state s faces)) = voice_active s"
  "car_running (snd (detect_eye_state s faces)) = car_running s"
  "sent (snd (detect_eye_state s faces)) = sent s"
  by (cases faces; simp add: detect_eye_state_def Let_def)+

lemma calculate_ear_formula:
  "euclidean p1 p4 \<noteq> 0 \<Longrightarrow>
   calculate_ear [p1, p2, p3, p4, p5, p6] =
     Inr (Ear ((euclidean p2 p6 + euclidean p3 p5) / (2 * euclidean p1 p4)))"
  by (simp add: Let_def)

lemma eye_points_of_face:
  "extract_eye_points face LEFT_EYE_POINTS =
     [part face 42, part face 43, part face 44, part face 45, part face 46, part face 47]"
  "extract_eye_points face RIGHT_EYE_POINTS =
     [part face 36, part face 37, part face 38, part face 39, part face 40, part face 41]"
  by (simp_all add: extract_eye_points_def LEFT_EYE_POINTS_def RIGHT_EYE_POINTS_def upt_rec)

lemma avg_ear_of_both:
  "calculate_ear (extract_eye_points face LEFT_EYE_POINTS) = Inr (Ear l) \<Longrightarrow>
   calculate_ear (extract_eye_points face RIGHT_EYE_POINTS) = Inr (Ear r) \<Longrightarrow>
   avg_ear_of face = Inr (Ear ((l + r) / 2))"
  by (simp add: avg_ear_of_def)

lemma sample_distances:
  "euclidean (0, 3) (6, 3) = 6"
  "euclidean (2, 6) (2, 0) = 6"
  "euclidean (4, 6) (4, 0) = 6"
  "euclidean (0, 0) (6, 0) = 6"
  "euclidean (0, 0) (0, 0) = 0"
  by (simp_all add: euclidean_def)

lemma frame_kinds:
  "stop_outcome s faces \<or> uncertain_outcome s faces \<or> open_frame faces"
  by (auto simp: stop_outcome_def uncertain_outcome_def open_frame_def closed_frame_def)

lemma voice_stop_frame:
  assumes "stop_outcome s (vfaces inp)"
  shows "voiced (fst (voice_run_body (s, last_voice_time) inp)) =
           voiced s @ (if \<not> voice_active s \<or> current_time inp - last_voice_time > 3
                       then [wake_messages ! (choice inp mod length wake_messages)] else [])
         \<and> snd (voice_run_body (s, last_voice_time) inp) =
           (if \<not> voice_active s \<or> current_time inp - last_voice_time > 3
            then current_time inp else last_voice_time)
         \<and> voice_active (fst (voice_run_body (s, last_voice_time) inp))
         \<and> \<not> car_running (fst (voice_run_body (s, last_voice_time) inp))
         \<and> sent (fst (voice_run_body (s, last_voice_time) inp)) =
           sent s @ (if car_running s then [''0''] else [])"
proof -
  have a: "vfaces inp = []
           \<or> (closed_frame (vfaces inp) \<and> EYE_CLOSED_THRESHOLD s < eye_closed_counter s + 1)"
    using assms by (simp add: stop_outcome_def)
  obtain r s1 where ds: "detect_eye_state (s\<lparr>frame_count := frame_count s + 1\<rparr>) (vfaces inp) = (r, s1)"
    by (cases "detect_eye_state (s\<lparr>frame_count := frame_count s + 1\<rparr>) (vfaces inp)") auto
  obtain e st n where r: "r = (e, st, n)" by (cases r) auto
  have e: "e = Some False" using voice_detect_stop [OF a] ds r by simp
  have keep: "voiced s1 = voiced s" "voice_active s1 = voice_active s"
    "car_running s1 = car_running s" "sent s1 = sent s"
    using voice_detect_keeps [of "s\<lparr>frame_count := frame_count s + 1\<rparr>" "vfaces inp"] ds
    by simp_all
  show ?thesis
    by (simp add: voice_run_body_def ds r e Let_def keep say_voice_fields send_fields
          send_voice_fields)
qed

lemma voice_open_frame:
  assumes "open_frame (vfaces inp)"
  shows "car_running (fst (voice_run_body (s, last_voice_time) inp))
         \<and> voice_active (fst (voice_run_body (s, last_voice_time) inp))
             = (car_running s \<and> voice_active s)
         \<and> voiced (fst (voice_run_body (s, last_voice_time) inp)) =
             voiced s @ (if car_running s then [] else [''Good! Car running!''])
         \<and> snd (voice_run_body (s, last_voice_time) inp) = last_voice_time
         \<and> sent (fst (voice_run_body (s, last_voice_time) inp)) =
             sent s @ (if car_running s then [] else [''1''])"
  by (simp add: voice_run_body_def detect_open_frame [OF assms] Let_def say_voice_fields
        send_fields send_voice_fields)

lemma voice_uncertain_frame:
  assumes "uncertain_outcome s (vfaces inp)"
  shows "car_running (fst (voice_run_body (s, last_voice_time) inp)) = car_running s
         \<and> voice_active (fst (voice_run_body (s, last_voice_time) inp)) = voice_active s
         \<and> voiced (fst (voice_run_body (s, last_voice_time) inp)) = voiced s
         \<and> snd (voice_run_body (s, last_voice_time) inp) = last_voice_time
         \<and> sent (fst (voice_run_body (s, last_voice_time) inp)) = sent s"
proof -
  have c: "closed_frame (vfaces inp)"
    and u: "\<not> EYE_CLOSED_THRESHOLD s < eye_closed_counter s + 1"
    using assms by (simp_all add: uncertain_outcome_def)
  show ?thesis using u
    by (simp add: voice_run_body_def detect_closed_frame [OF c] Let_def)
qed

lemma voice_body_quiet:
  assumes "quiet_while_running s"
  shows "quiet_while_running (fst (voice_run_body (s, last_voice_time) inp))"
proof -
  from frame_kinds [of s "vfaces inp"] consider
    (stop) "stop_outcome s (vfaces inp)"
    | (unc) "uncertain_outcome s (vfaces inp)"
    | (opn) "open_frame (vfaces inp)"
    by blast
  then show ?thesis
  proof cases
    case stop
    from voice_stop_frame [OF stop, of last_voice_time] show ?thesis
      by (simp add: quiet_while_running_def)
  next
    case unc
    from voice_uncertain_frame [OF unc, of last_voice_time] assms show ?thesis
      by (simp add: quiet_while_running_def)
  next
    case opn
    from voice_open_frame [OF opn, of s last_voice_time] assms show ?thesis
      by (auto simp: quiet_while_running_def)
  qed
qed

lemma voice_loop_quiet:
  "quiet_while_running (fst st) \<Longrightarrow> quiet_while_running (fst (voice_run_loop st events))"
proof (induction events arbitrary: st)
  case Nil
  then show ?case by simp
next
  case (Cons ev rest)
  obtain ret inp quit where ev: "ev = (ret, inp, quit)" by (cases ev) auto
  obtain s l where st: "st = (s, l)" by (cases st) auto
  have b: "quiet_while_running (fst (voice_run_body st inp))"
    using Cons.prems voice_body_quiet [of s l inp] by (simp add: st)
  show ?case using Cons.prems b Cons.IH [OF b] by (simp add: ev Let_def)
qed

lemma init_voice_quiet: "quiet_while_running (init_voice_car engine opened)"
  by (cases opened)
     (simp_all add: quiet_while_running_def init_voice_car_def setup_arduino_def
        say_voice_fields send_fields)

lemma init_voice_inactive: "\<not> voice_active (init_voice_car engine opened)"
  by (cases opened)
     (simp_all add: init_voice_car_def setup_arduino_def say_voice_fields send_voice_fields)

section \<open>The counters of the debouncer\<close>

text \<open>
  C4: on a frame without a face, whatever the counters were, the observe step reports the
  no-face outcome, adds one to the no-face counter and sets the closed-eye counter to 0.
  In EyeControlledCar the outcome is \<open>False\<close> with the "No driver detected" status; in
  SimpleSleepinessDetector it is \<open>False\<close> with "No face detected" or "Searching for
  face...".
\<close>

theorem no_face_observation:
  "detect_eye_state s [] =
     ((Some False, No_driver_detected, 0),
      s\<lparr>no_face_counter := no_face_counter s + 1, eye_closed_counter := 0\<rparr>)
   \<and> snd (detect_sleepiness d []) =
         d\<lparr>sd_no_face_counter := sd_no_face_counter d + 1, sd_eye_closed_counter := 0\<rparr>
   \<and> fst (detect_sleepiness d []) =
         (False, if sd_no_face_counter d + 1 > sd_FACE_ABSENT_THRESHOLD d
                 then No_face_detected else Searching_for_face (sd_no_face_counter d + 1))"
  by (simp add: detect_eye_state_def detect_sleepiness_def Let_def)

theorem no_face_observation_witness:
  "fst (detect_eye_state (init_car (Inl SerialException)\<lparr>eye_closed_counter := 10\<rparr>) [])
     = (Some False, No_driver_detected, 0)
   \<and> eye_closed_counter
         (snd (detect_eye_state (init_car (Inl SerialException)\<lparr>eye_closed_counter := 10\<rparr>) [])) = 0
   \<and> no_face_counter
         (snd (detect_eye_state (init_car (Inl SerialException)\<lparr>eye_closed_counter := 10\<rparr>) [])) = 1
   \<and> fst (detect_sleepiness (init_simple_detector (Inl SerialException)) [])
         = (False, Searching_for_face 1)"
  using no_face_observation
    [of "init_car (Inl SerialException)\<lparr>eye_closed_counter := 10\<rparr>"
        "init_simple_detector (Inl SerialException)"]
  by (simp add: init_car_def setup_arduino_def init_simple_detector_def sd_setup_arduino_def)

text \<open>
  C10: both counters are nonnegative and at least one of them is 0; every observe step
  from a state with this property gives a state with it, in EyeControlledCar and in
  SimpleSleepinessDetector, and the initial states have it. Whatever the state before,
  after a step one of the two counters is 0.
\<close>

theorem counters_invariant:
  "(counters_ok s \<longrightarrow> counters_ok (snd (detect_eye_state s faces)))
   \<and> (sd_counters_ok d \<longrightarrow> sd_counters_ok (snd (detect_sleepiness d faces)))
   \<and> (eye_closed_counter (snd (detect_eye_state s faces)) = 0
        \<or> no_face_counter (snd (detect_eye_state s faces)) = 0)
   \<and> (sd_eye_closed_counter (snd (detect_sleepiness d faces)) = 0
        \<or> sd_no_face_counter (snd (detect_sleepiness d faces)) = 0)
   \<and> counters_ok (init_car opened) \<and> sd_counters_ok (init_simple_detector opened)"
proof -
  have car_step: "counters_ok s \<longrightarrow> counters_ok (snd (detect_eye_state s faces))"
    by (cases faces) (auto simp: counters_ok_def detect_eye_state_def Let_def)
  have sd_step: "sd_counters_ok d \<longrightarrow> sd_counters_ok (snd (detect_sleepiness d faces))"
    by (cases faces) (auto simp: sd_counters_ok_def detect_sleepiness_def Let_def)
  have car_zero: "eye_closed_counter (snd (detect_eye_state s faces)) = 0
        \<or> no_face_counter (snd (detect_eye_state s faces)) = 0"
    by (cases faces) (auto simp: detect_eye_state_def Let_def)
  have sd_zero: "sd_eye_closed_counter (snd (detect_sleepiness d faces)) = 0
        \<or> sd_no_face_counter (snd (detect_sleepiness d faces)) = 0"
    by (cases faces) (auto simp: detect_sleepiness_def Let_def)
  have car_init: "counters_ok (init_car opened)"
    by (cases opened)
       (auto simp: counters_ok_def init_car_def setup_arduino_def send_to_arduino_def
             split: prod.splits)
  have sd_init: "sd_counters_ok (init_simple_detector opened)"
    by (cases opened)
       (auto simp: sd_counters_ok_def init_simple_detector_def sd_setup_arduino_def
                   sd_send_to_arduino_def split: prod.splits)
  from car_step sd_step car_zero sd_zero car_init sd_init show ?thesis by blast
qed

theorem counters_invariant_witness:
  "counters_ok (init_car (Inl SerialException)\<lparr>eye_closed_counter := 7\<rparr>)
   \<and> counters_ok
         (snd (detect_eye_state (init_car (Inl SerialException)\<lparr>eye_closed_counter := 7\<rparr>) []))
   \<and> sd_counters_ok (init_simple_detector (Inl SerialException)\<lparr>sd_no_face_counter := 4\<rparr>)
   \<and> sd_counters_ok
         (snd (detect_sleepiness
                 (init_simple_detector (Inl SerialException)\<lparr>sd_no_face_counter := 4\<rparr>) []))"
proof -
  have h1: "counters_ok (init_car (Inl SerialException)\<lparr>eye_closed_counter := 7\<rparr>)"
    by (simp add: counters_ok_def init_car_def setup_arduino_def)
  have h2: "sd_counters_ok (init_simple_detector (Inl SerialException)\<lparr>sd_no_face_counter := 4\<rparr>)"
    by (simp add: sd_counters_ok_def init_simple_detector_def sd_setup_arduino_def)
  from counters_invariant
    [of "init_car (Inl SerialException)\<lparr>eye_closed_counter := 7\<rparr>" "[]"
        "init_simple_detector (Inl SerialException)\<lparr>sd_no_face_counter := 4\<rparr>"]
    h1 h2
  show ?thesis by blast
qed

section \<open>Debouncing\<close>

text \<open>
  C1, as the code has it. On a run of frames with a face and closed-eye evidence, starting
  from a closed-eye counter of 0: in the discrete mode (\<^verbatim>\<open>detect_eye_state\<close>, test
  \<open>counter > EYE_CLOSED_THRESHOLD\<close>) call number \<open>k + 1\<close> reports EYES\_CLOSED when
  \<open>k + 1 \<ge> threshold + 1\<close> and UNCERTAIN ("Checking") before; in the continuous mode
  (\<^verbatim>\<open>process_frame\<close>, test \<open>counter >= CONSECUTIVE_FRAMES\<close>) call number \<open>j + 1\<close> gives
  the closed-eyes signal when \<open>j + 1 \<ge> CONSECUTIVE_FRAMES\<close>, one call earlier, and no
  signal before.
\<close>

theorem closed_run_outcomes:
  assumes "\<forall>faces \<in> set frs. closed_frame faces"
      and "eye_closed_counter s = 0"
      and "k < length frs"
      and "\<forall>face \<in> set fcs. ear_below (EAR_THRESHOLD d) face"
      and "frame_counter d = 0"
      and "j < length fcs"
  shows "fst (observe_seq s frs ! k) =
           (if EYE_CLOSED_THRESHOLD s + 1 \<le> int k + 1 then Some False else None)
         \<and> fst (snd (observe_seq s frs ! k)) =
           (if EYE_CLOSED_THRESHOLD s + 1 \<le> int k + 1
            then Eyes_closed_stopped (int k + 1) else Checking (int k + 1))
         \<and> length (signals_seq d (map (\<lambda>f. [f]) fcs)) = length fcs
         \<and> signals_seq d (map (\<lambda>f. [f]) fcs) ! j =
           (if CONSECUTIVE_FRAMES d \<le> int j + 1 then [''0''] else [])"
proof -
  have discrete: "observe_seq s frs ! k =
     (if eye_closed_counter s + int k + 1 > EYE_CLOSED_THRESHOLD s then Some False else None,
      if eye_closed_counter s + int k + 1 > EYE_CLOSED_THRESHOLD s
      then Eyes_closed_stopped (eye_closed_counter s + int k + 1)
      else Checking (eye_closed_counter s + int k + 1),
      eye_count_of (frs ! k))"
    using assms(1,3) by (rule observe_seq_closed)
  have continuous: "length (signals_seq d (map (\<lambda>f. [f]) fcs)) = length fcs \<and>
   (\<forall>k < length fcs.
      signals_seq d (map (\<lambda>f. [f]) fcs) ! k =
        (if frame_counter d + int k + 1 \<ge> CONSECUTIVE_FRAMES d then [''0''] else []))"
    using assms(4) by (rule signals_seq_closed)
  from discrete assms(2) have d1: "fst (observe_seq s frs ! k) =
           (if EYE_CLOSED_THRESHOLD s + 1 \<le> int k + 1 then Some False else None)"
    by auto
  from discrete assms(2) have d2: "fst (snd (observe_seq s frs ! k)) =
           (if EYE_CLOSED_THRESHOLD s + 1 \<le> int k + 1
            then Eyes_closed_stopped (int k + 1) else Checking (int k + 1))"
    by auto
  from continuous assms(5,6) have c2: "signals_seq d (map (\<lambda>f. [f]) fcs) ! j =
           (if CONSECUTIVE_FRAMES d \<le> int j + 1 then [''0''] else [])"
    by simp
  from d1 d2 continuous c2 show ?thesis by blast
qed

theorem closed_run_outcomes_witness:
  "closed_frame [face_with_eyes 0]
   \<and> ear_below 0.21 shut_face
   \<and> fst (observe_seq (init_car (Inl SerialException)) (replicate 16 [face_with_eyes 0]) ! 15)
       = Some False
   \<and> fst (snd (observe_seq (init_car (Inl SerialException)) (replicate 16 [face_with_eyes 0]) ! 15))
       = Eyes_closed_stopped 16
   \<and> signals_seq (init_sleepiness_detector (Inl SerialException))
         (map (\<lambda>f. [f]) (replicate 20 shut_face)) ! 19 = [''0'']"
proof -
  have h1: "\<forall>faces \<in> set (replicate 16 [face_with_eyes 0]). closed_frame faces"
    by (simp add: closed_frame_no_eyes)
  have h2: "eye_closed_counter (init_car (Inl SerialException)) = 0"
    by (simp add: init_fields)
  have h3: "15 < length (replicate 16 [face_with_eyes 0])" by simp
  have below: "ear_below 0.21 shut_face"
    by (simp add: ear_below_def avg_ear_shut_face)
  have h4: "\<forall>face \<in> set (replicate 20 shut_face).
              ear_below (EAR_THRESHOLD (init_sleepiness_detector (Inl SerialException))) face"
    using below by (simp add: sl_init_fields)
  have h5: "frame_counter (init_sleepiness_detector (Inl SerialException)) = 0"
    by (simp add: sl_init_fields)
  have h6: "19 < length (replicate 20 shut_face)" by simp
  show ?thesis
    using closed_run_outcomes [OF h1 h2 h3 h4 h5 h6] below
    by (simp add: init_fields sl_init_fields closed_frame_no_eyes)
qed

text \<open>
  C1 as stated fails in the continuous mode: with \<open>CONSECUTIVE_FRAMES = 20\<close> the 20th
  closed-eye frame, which comes before call number threshold + 1 = 21, already gives the
  closed-eyes signal instead of the uncertain outcome.
\<close>

theorem continuous_mode_counterexample:
  "CONSECUTIVE_FRAMES (init_sleepiness_detector (Inl SerialException)) = 20
   \<and> frame_counter (init_sleepiness_detector (Inl SerialException)) = 0
   \<and> ear_below (EAR_THRESHOLD (init_sleepiness_detector (Inl SerialException))) shut_face
   \<and> signals_seq (init_sleepiness_detector (Inl SerialException))
         (map (\<lambda>f. [f]) (replicate 20 shut_face)) ! 19 = [''0'']"
proof -
  have below: "ear_below (EAR_THRESHOLD (init_sleepiness_detector (Inl SerialException))) shut_face"
    by (simp add: ear_below_def avg_ear_shut_face sl_init_fields)
  then have h4: "\<forall>face \<in> set (replicate 20 shut_face).
              ear_below (EAR_THRESHOLD (init_sleepiness_detector (Inl SerialException))) face"
    by simp
  have "19 < length (replicate 20 shut_face)" by simp
  with signals_seq_closed [OF h4] have
    "signals_seq (init_sleepiness_detector (Inl SerialException))
         (map (\<lambda>f. [f]) (replicate 20 shut_face)) ! 19 =
     (if frame_counter (init_sleepiness_detector (Inl SerialException)) + int 19 + 1
          \<ge> CONSECUTIVE_FRAMES (init_sleepiness_detector (Inl SerialException))
      then [''0''] else [])"
    by blast
  then show ?thesis using below by (simp add: sl_init_fields)
qed

section \<open>The decision step\<close>

text \<open>
  C3, as the code has it. In EyeControlledCar the control block of \<^verbatim>\<open>run\<close> sets the car
  running on EYES\_OPEN, stopped on EYES\_CLOSED and on NO\_FACE, and leaves it as it was on
  UNCERTAIN, whatever the car state before. SimpleSleepinessDetector keeps no car state:
  its \<^verbatim>\<open>run\<close> sends \<open>0\<close> on a confirmed closed-eyes outcome and \<open>1\<close> on every other
  outcome, the no-face and the uncertain ones included.
\<close>

theorem decision_policy:
  "(open_frame faces \<longrightarrow> car_running (run_body s faces))
   \<and> \<not> car_running (run_body s [])
   \<and> (closed_frame faces \<and> EYE_CLOSED_THRESHOLD s < eye_closed_counter s + 1
        \<longrightarrow> \<not> car_running (run_body s faces))
   \<and> (closed_frame faces \<and> \<not> EYE_CLOSED_THRESHOLD s < eye_closed_counter s + 1
        \<longrightarrow> car_running (run_body s faces) = car_running s
            \<and> sent (run_body s faces) = sent s)
   \<and> car_running (control_car (Some True) s)
   \<and> \<not> car_running (control_car (Some False) s)
   \<and> control_car None s = s
   \<and> sd_sent (sd_run_body d faces) =
        sd_sent d @ [if closed_frame faces
                        \<and> sd_EYE_CLOSED_THRESHOLD d < sd_eye_closed_counter d + 1
                     then ''0'' else ''1'']"
  using run_body_open [of faces s] run_body_no_face [of s] run_body_closed [of faces s]
    control_car_fields(1-3) [of s] sd_run_body_sent [of d faces]
  by simp

theorem decision_policy_witness:
  "open_frame [face_with_eyes 2]
   \<and> car_running (run_body (init_car (Inl SerialException)) [face_with_eyes 2])
   \<and> \<not> car_running (run_body (init_car (Inl SerialException)\<lparr>car_running := True\<rparr>) [])
   \<and> closed_frame [face_with_eyes 1]
   \<and> car_running (run_body (init_car (Inl SerialException)\<lparr>car_running := True\<rparr>)
                      [face_with_eyes 1])
   \<and> \<not> car_running
           (run_body (init_car (Inl SerialException)\<lparr>car_running := True, eye_closed_counter := 15\<rparr>)
              [face_with_eyes 1])"
proof -
  have o: "open_frame [face_with_eyes 2]" by (rule open_frame_two_eyes)
  have c: "closed_frame [face_with_eyes 1]" by (rule closed_frame_no_eyes)
  have under: "\<not> EYE_CLOSED_THRESHOLD (init_car (Inl SerialException)\<lparr>car_running := True\<rparr>)
                 < eye_closed_counter (init_car (Inl SerialException)\<lparr>car_running := True\<rparr>) + 1"
    by (simp add: init_fields)
  have over: "EYE_CLOSED_THRESHOLD
                (init_car (Inl SerialException)\<lparr>car_running := True, eye_closed_counter := 15\<rparr>)
              < eye_closed_counter
                  (init_car (Inl SerialException)\<lparr>car_running := True, eye_closed_counter := 15\<rparr>) + 1"
    by (simp add: init_fields)
  from decision_policy [of "[face_with_eyes 2]" "init_car (Inl SerialException)"] o
  have a: "car_running (run_body (init_car (Inl SerialException)) [face_with_eyes 2])"
    by blast
  from decision_policy [of "[]" "init_car (Inl SerialException)\<lparr>car_running := True\<rparr>"]
  have b: "\<not> car_running (run_body (init_car (Inl SerialException)\<lparr>car_running := True\<rparr>) [])"
    by blast
  from decision_policy [of "[face_with_eyes 1]" "init_car (Inl SerialException)\<lparr>car_running := True\<rparr>"]
    c under
  have d: "car_running (run_body (init_car (Inl SerialException)\<lparr>car_running := True\<rparr>)
                      [face_with_eyes 1])"
    by simp
  from decision_policy [of "[face_with_eyes 1]"
       "init_car (Inl SerialException)\<lparr>car_running := True, eye_closed_counter := 15\<rparr>"]
    c over
  have e: "\<not> car_running
           (run_body (init_car (Inl SerialException)\<lparr>car_running := True, eye_closed_counter := 15\<rparr>)
              [face_with_eyes 1])"
    by blast
  from o a b c d e show ?thesis by blast
qed

text \<open>
  C3 as stated fails in SimpleSleepinessDetector: on a frame without a face
  \<^verbatim>\<open>detect_sleepiness\<close> returns \<open>False\<close> (not sleepy) and \<^verbatim>\<open>run\<close> sends the run byte
  \<open>1\<close>, not the stop byte.
\<close>

theorem no_face_runs_counterexample:
  "fst (detect_sleepiness (init_simple_detector (Inr fresh_port)) []) = (False, Searching_for_face 1)
   \<and> sd_sent (init_simple_detector (Inr fresh_port)) = [''1'']
   \<and> sd_sent (sd_run_body (init_simple_detector (Inr fresh_port)) []) = [''1'', ''1'']
   \<and> map_option wire (sd_arduino (sd_run_body (init_simple_detector (Inr fresh_port)) [])) = Some ''11''"
  by (simp add: init_simple_detector_def sd_setup_arduino_def sd_send_to_arduino_def fresh_port_def
        link_send_fresh sd_run_body_def detect_sleepiness_def Let_def)

section \<open>Edge triggering\<close>

text \<open>
  C2, as the code has it. In EyeControlledCar, over a steady stream of at least one
  open-eyes frame from any car state, \<^verbatim>\<open>send_to_arduino\<close> is called once (with \<open>1\<close>, on the
  first frame) if the car was stopped and not at all if it was running, and the car runs
  at the end. SimpleSleepinessDetector and SleepinessDetector are level triggered: they
  send \<open>1\<close> on every open-eyes frame.
\<close>

theorem edge_triggering:
  assumes "frs \<noteq> []"
      and "\<forall>faces \<in> set frs. open_frame faces"
      and "\<forall>face \<in> set fcs. ear_not_below (EAR_THRESHOLD sl) face"
  shows "car_running (run_loop s (frames_read frs))
         \<and> sent (run_loop s (frames_read frs)) = sent s @ (if car_running s then [] else [''1''])
         \<and> sd_sent (sd_run_loop d (frames_read frs)) = sd_sent d @ replicate (length frs) ''1''
         \<and> signals_seq sl (map (\<lambda>f. [f]) fcs) = replicate (length fcs) [''1'']"
  using run_loop_open [OF assms(1,2), of s] sd_run_loop_open [OF assms(2), of d]
    signals_seq_open [OF assms(3)]
  by simp

theorem edge_triggering_witness:
  "open_frame [face_with_eyes 2]
   \<and> ear_not_below 0.21 wide_face
   \<and> car_running (run_loop (init_car (Inr fresh_port)) (frames_read (replicate 3 [face_with_eyes 2])))
   \<and> sent (run_loop (init_car (Inr fresh_port)) (frames_read (replicate 3 [face_with_eyes 2])))
       = [''0'', ''1'']
   \<and> sd_sent (sd_run_loop (init_simple_detector (Inr fresh_port))
                (frames_read (replicate 3 [face_with_eyes 2])))
       = [''1'', ''1'', ''1'', ''1'']
   \<and> signals_seq (init_sleepiness_detector (Inr fresh_port)) (map (\<lambda>f. [f]) (replicate 3 wide_face))
       = [[''1''], [''1''], [''1'']]"
proof -
  have h1: "replicate 3 [face_with_eyes 2] \<noteq> []" by simp
  have h2: "\<forall>faces \<in> set (replicate 3 [face_with_eyes 2]). open_frame faces"
    by (simp add: open_frame_two_eyes)
  have nb: "ear_not_below 0.21 wide_face"
    by (simp add: ear_not_below_def avg_ear_wide_face)
  have thr: "EAR_THRESHOLD (init_sleepiness_detector (Inr fresh_port)) = 0.21"
    by (simp add: init_sleepiness_detector_def sl_setup_arduino_def sl_send_fields)
  have h3: "\<forall>face \<in> set (replicate 3 wide_face).
              ear_not_below (EAR_THRESHOLD (init_sleepiness_detector (Inr fresh_port))) face"
    using nb by (simp add: thr)
  have c0: "\<not> car_running (init_car (Inr fresh_port))" "sent (init_car (Inr fresh_port)) = [''0'']"
    by (simp_all add: init_car_def setup_arduino_def send_fields)
  have d0: "sd_sent (init_simple_detector (Inr fresh_port)) = [''1'']"
    by (simp add: init_simple_detector_def sd_setup_arduino_def sd_send_fields)
  show ?thesis
    using edge_triggering [OF h1 h2 h3, of "init_car (Inr fresh_port)"
        "init_simple_detector (Inr fresh_port)"] nb c0 d0
    by (simp add: open_frame_two_eyes numeral_3_eq_3)
qed

text \<open>
  C2 as stated fails in SimpleSleepinessDetector: two open-eyes frames in a row send the
  byte \<open>1\<close> twice (after the \<open>1\<close> of the connection), with no change of outcome between.
\<close>

theorem level_triggered_counterexample:
  "open_frame [face_with_eyes 2]
   \<and> sd_sent (sd_run_loop (init_simple_detector (Inr fresh_port))
                (frames_read [[face_with_eyes 2], [face_with_eyes 2]]))
       = [''1'', ''1'', ''1'']
   \<and> map_option write_calls
         (sd_arduino (sd_run_loop (init_simple_detector (Inr fresh_port))
                        (frames_read [[face_with_eyes 2], [face_with_eyes 2]])))
       = Some 3
   \<and> map_option wire
         (sd_arduino (sd_run_loop (init_simple_detector (Inr fresh_port))
                        (frames_read [[face_with_eyes 2], [face_with_eyes 2]])))
       = Some ''111''"
proof -
  have o: "open_frame [face_with_eyes 2]" by (rule open_frame_two_eyes)
  have r: "sd_run_loop (init_simple_detector (Inr fresh_port))
                (frames_read [[face_with_eyes 2], [face_with_eyes 2]])
           = \<lparr>sd_FACE_ABSENT_THRESHOLD = 30, sd_EYE_CLOSED_THRESHOLD = 20,
               sd_face_absent_counter = 0, sd_eye_closed_counter = 0, sd_no_face_counter = 0,
               sd_arduino = Some \<lparr>is_open = True, wire = ''111'', write_calls = 3, faults = []\<rparr>,
               sd_console = [Arduino_connected], sd_sent = [''1'', ''1'', ''1'']\<rparr>"
    by (simp add: init_simple_detector_def sd_setup_arduino_def
        sd_send_to_arduino_def fresh_port_def link_send_fresh frames_read_def sd_run_body_def
        detect_sleepiness_def face_with_eyes_def area_def Let_def)
  show ?thesis using o by (simp add: r)
qed

section \<open>The actuator link\<close>

text \<open>
  C5: when the connection fails, \<^verbatim>\<open>setup_arduino\<close> leaves the link absent instead of
  raising. From then on \<^verbatim>\<open>send_to_arduino\<close> changes nothing but the record of its calls,
  the whole run (loop and cleanup) ends with the link still absent and prints no send
  error, and the counters, the car state and the calls of \<^verbatim>\<open>send_to_arduino\<close> are, frame
  by frame, what they are with any link.
\<close>

theorem disconnection_transparency:
  "arduino (setup_arduino (Inl e) s) = None
   \<and> arduino (init_car (Inl e)) = None
   \<and> send_to_arduino signal (s\<lparr>arduino := None\<rparr>)
       = s\<lparr>arduino := None, sent := sent s @ [signal]\<rparr>
   \<and> arduino (run (s\<lparr>arduino := None\<rparr>) events) = None
   \<and> (Error_sending \<in> set (console (run (s\<lparr>arduino := None\<rparr>) events))
        \<longleftrightarrow> Error_sending \<in> set (console s))
   \<and> control_state (run_loop (s\<lparr>arduino := None\<rparr>) events)
       = control_state (run_loop (s\<lparr>arduino := link\<rparr>) events)
   \<and> car_running (run (s\<lparr>arduino := None\<rparr>) events)
       = car_running (run (s\<lparr>arduino := link\<rparr>) events)"
proof -
  have connect: "arduino (setup_arduino (Inl e) s) = None" "arduino (init_car (Inl e)) = None"
    by (simp_all add: setup_arduino_def init_car_def)
  have noop: "send_to_arduino signal (s\<lparr>arduino := None\<rparr>)
       = s\<lparr>arduino := None, sent := sent s @ [signal]\<rparr>"
    by (simp add: send_offline)
  have off: "arduino (s\<lparr>arduino := None\<rparr>) = None" by simp
  note loop = run_loop_offline [OF off, of events]
  from loop have l0: "arduino (run_loop (s\<lparr>arduino := None\<rparr>) events) = None" by simp
  have whole: "arduino (run (s\<lparr>arduino := None\<rparr>) events) = None"
    "Error_sending \<in> set (console (run (s\<lparr>arduino := None\<rparr>) events))
        \<longleftrightarrow> Error_sending \<in> set (console s)"
    using loop by (simp_all add: run_def cleanup_offline [OF l0])
  have "control_state (s\<lparr>arduino := None\<rparr>) = control_state (s\<lparr>arduino := link\<rparr>)"
    by (simp add: control_state_def)
  then have same: "control_state (run_loop (s\<lparr>arduino := None\<rparr>) events)
       = control_state (run_loop (s\<lparr>arduino := link\<rparr>) events)"
    by (rule run_loop_link_free)
  then have car: "car_running (run (s\<lparr>arduino := None\<rparr>) events)
       = car_running (run (s\<lparr>arduino := link\<rparr>) events)"
    by (simp add: run_def cleanup_fields control_state_def)
  from connect noop whole same car show ?thesis by blast
qed

theorem disconnection_transparency_witness:
  "arduino (init_car (Inl SerialException)) = None
   \<and> car_running
         (run_loop (init_car (Inl SerialException)) (frames_read [[face_with_eyes 2], []]))
       = car_running
           (run_loop (init_car (Inl SerialException)\<lparr>arduino := Some fresh_port\<rparr>)
              (frames_read [[face_with_eyes 2], []]))
   \<and> sent (run_loop (init_car (Inl SerialException)) (frames_read [[face_with_eyes 2], []]))
       = sent (run_loop (init_car (Inl SerialException)\<lparr>arduino := Some fresh_port\<rparr>)
                (frames_read [[face_with_eyes 2], []]))"
proof -
  have i: "init_car (Inl SerialException)\<lparr>arduino := None\<rparr> = init_car (Inl SerialException)"
    by (simp add: init_car_def setup_arduino_def)
  from disconnection_transparency
    [of SerialException "init_car (Inl SerialException)" "''1''"
        "frames_read [[face_with_eyes 2], []]" "Some fresh_port"]
  show ?thesis by (simp add: i control_state_def)
qed

text \<open>
  C6, as the code has it. When a write on an open port raises, \<^verbatim>\<open>send_to_arduino\<close> catches
  the exception and prints it, and leaves the link as it is: the same port, still open,
  not replaced by an absent link and not reopened. The next call of \<^verbatim>\<open>send_to_arduino\<close>
  attempts a write on it again. This holds in EyeControlledCar and in SleepinessDetector.
\<close>

theorem write_failure_keeps_link:
  assumes "arduino s = Some p" and "sl_arduino d = Some p"
      and "is_open p" and "faults p = True # fs"
  shows "arduino (send_to_arduino signal s)
           = Some (p\<lparr>write_calls := Suc (write_calls p), faults := fs\<rparr>)
         \<and> console (send_to_arduino signal s) = console s @ [Error_sending]
         \<and> map_option is_open (arduino (send_to_arduino signal2 (send_to_arduino signal s)))
             = Some True
         \<and> map_option write_calls (arduino (send_to_arduino signal2 (send_to_arduino signal s)))
             = Some (write_calls p + 2)
         \<and> sl_arduino (sl_send_to_arduino signal d)
             = Some (p\<lparr>write_calls := Suc (write_calls p), faults := fs\<rparr>)
         \<and> sl_console (sl_send_to_arduino signal d) = sl_console d @ [Error_sending]
         \<and> map_option write_calls
               (sl_arduino (sl_send_to_arduino signal2 (sl_send_to_arduino signal d)))
             = Some (write_calls p + 2)"
proof -
  let ?p1 = "p\<lparr>write_calls := Suc (write_calls p), faults := fs\<rparr>"
  have f: "link_send signal (Some p) = (Some ?p1, [Error_sending])"
    using assms(3,4) by (rule link_send_failure)
  have o1: "is_open ?p1" using assms(3) by simp
  note again = link_send_open [OF o1, of signal2]
  have a1: "arduino (send_to_arduino signal s) = Some ?p1"
    "console (send_to_arduino signal s) = console s @ [Error_sending]"
    by (simp_all add: send_link assms(1) f)
  have a2: "map_option is_open (arduino (send_to_arduino signal2 (send_to_arduino signal s)))
             = Some True"
    "map_option write_calls (arduino (send_to_arduino signal2 (send_to_arduino signal s)))
             = Some (write_calls p + 2)"
    using again send_link(1) [of signal2 "send_to_arduino signal s"] a1(1) by simp_all
  have b1: "sl_arduino (sl_send_to_arduino signal d) = Some ?p1"
    "sl_console (sl_send_to_arduino signal d) = sl_console d @ [Error_sending]"
    by (simp_all add: sl_send_link assms(2) f)
  have b2: "map_option write_calls
               (sl_arduino (sl_send_to_arduino signal2 (sl_send_to_arduino signal d)))
             = Some (write_calls p + 2)"
    using again sl_send_link(1) [of signal2 "sl_send_to_arduino signal d"] b1(1) by simp
  from a1 a2 b1 b2 show ?thesis by blast
qed

theorem write_failure_keeps_link_witness:
  "arduino (send_to_arduino ''1'' (init_car (Inr flaky_port)))
     = Some \<lparr>is_open = True, wire = ''0'', write_calls = 2, faults = []\<rparr>
   \<and> console (send_to_arduino ''1'' (init_car (Inr flaky_port)))
     = [Arduino_connected, Error_sending]
   \<and> map_option write_calls
         (arduino (send_to_arduino ''0'' (send_to_arduino ''1'' (init_car (Inr flaky_port)))))
     = Some 3"
proof -
  let ?p = "\<lparr>is_open = True, wire = ''0'', write_calls = 1, faults = [True]\<rparr>"
  have h1: "arduino (init_car (Inr flaky_port)) = Some ?p" by (rule flaky_after_init)
  have h2: "sl_arduino (init_sleepiness_detector (Inr flaky_port)\<lparr>sl_arduino := Some ?p\<rparr>) = Some ?p"
    by simp
  have h3: "is_open ?p" by simp
  have h4: "faults ?p = True # []" by simp
  have c: "console (init_car (Inr flaky_port)) = [Arduino_connected]"
    by (simp add: init_car_def setup_arduino_def send_to_arduino_def
        link_send_def serial_write_def flaky_port_def)
  note w = write_failure_keeps_link [OF h1 h2 h3 h4, of "''1''" "''0''"]
  from w have a: "arduino (send_to_arduino ''1'' (init_car (Inr flaky_port)))
           = Some (?p\<lparr>write_calls := Suc (write_calls ?p), faults := []\<rparr>)"
    by blast
  from w have b: "console (send_to_arduino ''1'' (init_car (Inr flaky_port)))
           = console (init_car (Inr flaky_port)) @ [Error_sending]"
    by blast
  from w have d: "map_option write_calls
         (arduino (send_to_arduino ''0'' (send_to_arduino ''1'' (init_car (Inr flaky_port)))))
     = Some (write_calls ?p + 2)"
    by blast
  have a': "arduino (send_to_arduino ''1'' (init_car (Inr flaky_port)))
     = Some \<lparr>is_open = True, wire = ''0'', write_calls = 2, faults = []\<rparr>"
    using a by simp
  have b': "console (send_to_arduino ''1'' (init_car (Inr flaky_port)))
     = [Arduino_connected, Error_sending]"
    using b by (simp add: c)
  have d': "map_option write_calls
         (arduino (send_to_arduino ''0'' (send_to_arduino ''1'' (init_car (Inr flaky_port)))))
     = Some 3"
  proof -
    have n: "write_calls ?p + 2 = 3" by simp
    from d show ?thesis unfolding n .
  qed
  from a' b' d' show ?thesis by blast
qed

text \<open>
  C6 as stated fails: on a port whose second write raises, the third call of
  \<^verbatim>\<open>send_to_arduino\<close> finds the link still present and open, attempts a write and the
  byte reaches the device.
\<close>

theorem write_after_failure_counterexample:
  "arduino (send_to_arduino ''1'' (init_car (Inr flaky_port)))
     = Some \<lparr>is_open = True, wire = ''0'', write_calls = 2, faults = []\<rparr>
   \<and> arduino (send_to_arduino ''0'' (send_to_arduino ''1'' (init_car (Inr flaky_port))))
     = Some \<lparr>is_open = True, wire = ''00'', write_calls = 3, faults = []\<rparr>
   \<and> arduino (send_to_arduino ''0'' (send_to_arduino ''1'' (init_car (Inr flaky_port)))) \<noteq> None"
  by (simp add: init_car_def setup_arduino_def send_to_arduino_def
        link_send_def serial_write_def flaky_port_def)

section \<open>Start and shutdown\<close>

text \<open>
  C7, as the code has it. EyeControlledCar starts with both counters at 0 and the car
  stopped, whatever the connection gave; its \<^verbatim>\<open>cleanup\<close> calls \<^verbatim>\<open>send_to_arduino\<close> with the
  stop byte \<open>0\<close> and then closes the port when a link is present (on a healthy open port
  the byte is written before the port is closed), and sends nothing when the link is
  absent. SleepinessDetector starts with both its counters at 0; its \<^verbatim>\<open>cleanup\<close> sends the
  byte \<open>1\<close> ("turn off motor") before closing the port.
\<close>

theorem lifecycle:
  "eye_closed_counter (init_car opened) = 0
   \<and> no_face_counter (init_car opened) = 0
   \<and> \<not> car_running (init_car opened)
   \<and> (arduino s = Some p \<longrightarrow>
         sent (cleanup s) = sent s @ [''0'']
         \<and> map_option is_open (arduino (cleanup s)) = Some False)
   \<and> (arduino s = Some p \<and> is_open p \<and> faults p = [] \<longrightarrow>
         arduino (cleanup s)
           = Some (p\<lparr>is_open := False, wire := wire p @ ''0'', write_calls := Suc (write_calls p)\<rparr>))
   \<and> (arduino s = None \<longrightarrow> sent (cleanup s) = sent s \<and> arduino (cleanup s) = None)
   \<and> frame_counter (init_sleepiness_detector opened) = 0
   \<and> sleepy_counter (init_sleepiness_detector opened) = 0
   \<and> (sl_arduino d = Some p \<longrightarrow>
         sl_sent (sl_cleanup d) = sl_sent d @ [''1'']
         \<and> map_option is_open (sl_arduino (sl_cleanup d)) = Some False)
   \<and> (sl_arduino d = Some p \<and> is_open p \<and> faults p = [] \<longrightarrow>
         sl_arduino (sl_cleanup d)
           = Some (p\<lparr>is_open := False, wire := wire p @ ''1'', write_calls := Suc (write_calls p)\<rparr>))"
proof -
  have car_present: "arduino s = Some p \<longrightarrow>
         sent (cleanup s) = sent s @ [''0'']
         \<and> map_option is_open (arduino (cleanup s)) = Some False"
    using cleanup_present [of s p] closed_after_close [of "''0''" p] by simp
  have car_written: "arduino s = Some p \<and> is_open p \<and> faults p = [] \<longrightarrow>
         arduino (cleanup s)
           = Some (p\<lparr>is_open := False, wire := wire p @ ''0'', write_calls := Suc (write_calls p)\<rparr>)"
    using cleanup_present [of s p] link_send_healthy [of p "''0''"]
    by (auto simp: serial_close_def)
  have car_absent: "arduino s = None \<longrightarrow> sent (cleanup s) = sent s \<and> arduino (cleanup s) = None"
    by (simp add: cleanup_offline)
  have sl_present: "sl_arduino d = Some p \<longrightarrow>
         sl_sent (sl_cleanup d) = sl_sent d @ [''1'']
         \<and> map_option is_open (sl_arduino (sl_cleanup d)) = Some False"
    using sl_cleanup_present [of d p] closed_after_close [of "''1''" p] by simp
  have sl_written: "sl_arduino d = Some p \<and> is_open p \<and> faults p = [] \<longrightarrow>
         sl_arduino (sl_cleanup d)
           = Some (p\<lparr>is_open := False, wire := wire p @ ''1'', write_calls := Suc (write_calls p)\<rparr>)"
    using sl_cleanup_present [of d p] link_send_healthy [of p "''1''"]
    by (auto simp: serial_close_def)
  from init_car_start [of opened] init_sleepiness_start [of opened]
    car_present car_written car_absent sl_present sl_written
  show ?thesis by blast
qed

theorem lifecycle_witness:
  "arduino (cleanup (init_car (Inr fresh_port)))
     = Some \<lparr>is_open = False, wire = ''00'', write_calls = 2, faults = []\<rparr>
   \<and> sent (cleanup (init_car (Inr fresh_port))) = [''0'', ''0'']
   \<and> sent (cleanup (init_car (Inl SerialException))) = []
   \<and> sl_sent (sl_cleanup (init_sleepiness_detector (Inr fresh_port))) = [''1'', ''1'']"
proof -
  let ?p = "\<lparr>is_open = True, wire = ''0'', write_calls = 1, faults = []\<rparr>"
  let ?q = "\<lparr>is_open = True, wire = ''1'', write_calls = 1, faults = []\<rparr>"
  have hp: "arduino (init_car (Inr fresh_port)) = Some ?p \<and> is_open ?p \<and> faults ?p = []"
    by (simp add: fresh_after_init)
  have hq: "sl_arduino (init_sleepiness_detector (Inr fresh_port)) = Some ?q"
    by (simp add: fresh_after_init)
  have hn: "arduino (init_car (Inl SerialException)) = None"
    by (simp add: init_fields)
  note w = lifecycle [of _ "init_car (Inr fresh_port)" ?p]
  from w hp have a: "arduino (cleanup (init_car (Inr fresh_port)))
           = Some (?p\<lparr>is_open := False, wire := wire ?p @ ''0'', write_calls := Suc (write_calls ?p)\<rparr>)"
    by blast
  from w hp have b: "sent (cleanup (init_car (Inr fresh_port))) = sent (init_car (Inr fresh_port)) @ [''0'']"
    by blast
  from lifecycle [of _ "init_car (Inl SerialException)"] hn
  have c: "sent (cleanup (init_car (Inl SerialException))) = sent (init_car (Inl SerialException))"
    by blast
  from lifecycle [of _ _ ?q "init_sleepiness_detector (Inr fresh_port)"] hq
  have d: "sl_sent (sl_cleanup (init_sleepiness_detector (Inr fresh_port)))
            = sl_sent (init_sleepiness_detector (Inr fresh_port)) @ [''1'']"
    by blast
  have a': "arduino (cleanup (init_car (Inr fresh_port)))
     = Some \<lparr>is_open = False, wire = ''00'', write_calls = 2, faults = []\<rparr>"
    using a by simp
  from a' b c d show ?thesis by (simp add: fresh_after_init init_fields)
qed

text \<open>
  C7 as stated fails in SleepinessDetector: the last byte its \<^verbatim>\<open>cleanup\<close> puts on the wire
  before closing the port is \<open>1\<close>, not \<open>0\<close>.
\<close>

theorem final_byte_counterexample:
  "sl_arduino (sl_cleanup (init_sleepiness_detector (Inr fresh_port)))
     = Some \<lparr>is_open = False, wire = ''11'', write_calls = 2, faults = []\<rparr>
   \<and> sl_sent (sl_cleanup (init_sleepiness_detector (Inr fresh_port))) = [''1'', ''1'']
   \<and> last (sl_sent (sl_cleanup (init_sleepiness_detector (Inr fresh_port)))) \<noteq> ''0''"
  by (simp add: sl_cleanup_def init_sleepiness_detector_def sl_setup_arduino_def
        sl_send_to_arduino_def link_send_def serial_write_def serial_close_def fresh_port_def
        Let_def)

section \<open>The voice alert\<close>

text \<open>
  C8, as the code has it, for the loop of EyeControlledCarWithVoice. On a frame whose
  outcome is NO\_FACE or EYES\_CLOSED the wake-up message is spoken exactly when
  \<open>voice_active\<close> is false or the frame's time is more than 3 seconds after
  \<open>last_voice_time\<close>; the alert sets \<open>voice_active\<close> and records the frame's time in
  \<open>last_voice_time\<close>, and the stop byte is sent only if the car was running. A frame with
  open eyes makes the car run and clears \<open>voice_active\<close> when the car was stopped, and
  changes neither when it was running; an uncertain frame changes neither; both leave
  \<open>last_voice_time\<close> as it was. At the start \<open>voice_active\<close> is false, and in every
  state the loop reaches from there \<open>voice_active\<close> is false while the car runs. Hence
  every transition into STOPPED speaks the message on its frame, and while the outcome
  stays the message is repeated on each frame that comes more than 3 seconds after the
  last one spoken.
\<close>

theorem voice_alert_rule:
  "(stop_outcome s (vfaces inp) \<longrightarrow>
      voiced (fst (voice_run_body (s, last_voice_time) inp)) =
        voiced s @ (if \<not> voice_active s \<or> current_time inp - last_voice_time > 3
                    then [wake_messages ! (choice inp mod length wake_messages)] else [])
      \<and> snd (voice_run_body (s, last_voice_time) inp) =
        (if \<not> voice_active s \<or> current_time inp - last_voice_time > 3
         then current_time inp else last_voice_time)
      \<and> voice_active (fst (voice_run_body (s, last_voice_time) inp))
      \<and> \<not> car_running (fst (voice_run_body (s, last_voice_time) inp))
      \<and> sent (fst (voice_run_body (s, last_voice_time) inp)) =
        sent s @ (if car_running s then [''0''] else []))
   \<and> (open_frame (vfaces inp) \<longrightarrow>
      car_running (fst (voice_run_body (s, last_voice_time) inp))
      \<and> voice_active (fst (voice_run_body (s, last_voice_time) inp))
          = (car_running s \<and> voice_active s)
      \<and> voiced (fst (voice_run_body (s, last_voice_time) inp)) =
          voiced s @ (if car_running s then [] else [''Good! Car running!''])
      \<and> snd (voice_run_body (s, last_voice_time) inp) = last_voice_time)
   \<and> (uncertain_outcome s (vfaces inp) \<longrightarrow>
      car_running (fst (voice_run_body (s, last_voice_time) inp)) = car_running s
      \<and> voice_active (fst (voice_run_body (s, last_voice_time) inp)) = voice_active s
      \<and> voiced (fst (voice_run_body (s, last_voice_time) inp)) = voiced s
      \<and> snd (voice_run_body (s, last_voice_time) inp) = last_voice_time)
   \<and> \<not> voice_active (init_voice_car engine opened)
   \<and> quiet_while_running (init_voice_car engine opened)
   \<and> (quiet_while_running s \<longrightarrow>
        quiet_while_running (fst (voice_run_body (s, last_voice_time) inp))
        \<and> quiet_while_running (fst (voice_run_loop (s, last_voice_time) events)))
   \<and> (quiet_while_running s \<and> car_running s \<and> stop_outcome s (vfaces inp) \<longrightarrow>
        voiced (fst (voice_run_body (s, last_voice_time) inp)) =
          voiced s @ [wake_messages ! (choice inp mod length wake_messages)]
        \<and> sent (fst (voice_run_body (s, last_voice_time) inp)) = sent s @ [''0''])"
proof -
  have stop: "stop_outcome s (vfaces inp) \<longrightarrow>
      voiced (fst (voice_run_body (s, last_voice_time) inp)) =
        voiced s @ (if \<not> voice_active s \<or> current_time inp - last_voice_time > 3
                    then [wake_messages ! (choice inp mod length wake_messages)] else [])
      \<and> snd (voice_run_body (s, last_voice_time) inp) =
        (if \<not> voice_active s \<or> current_time inp - last_voice_time > 3
         then current_time inp else last_voice_time)
      \<and> voice_active (fst (voice_run_body (s, last_voice_time) inp))
      \<and> \<not> car_running (fst (voice_run_body (s, last_voice_time) inp))
      \<and> sent (fst (voice_run_body (s, last_voice_time) inp)) =
        sent s @ (if car_running s then [''0''] else [])"
    using voice_stop_frame [of s inp last_voice_time] by blast
  have opn: "open_frame (vfaces inp) \<longrightarrow>
      car_running (fst (voice_run_body (s, last_voice_time) inp))
      \<and> voice_active (fst (voice_run_body (s, last_voice_time) inp))
          = (car_running s \<and> voice_active s)
      \<and> voiced (fst (voice_run_body (s, last_voice_time) inp)) =
          voiced s @ (if car_running s then [] else [''Good! Car running!''])
      \<and> snd (voice_run_body (s, last_voice_time) inp) = last_voice_time"
    using voice_open_frame [of inp s last_voice_time] by blast
  have unc: "uncertain_outcome s (vfaces inp) \<longrightarrow>
      car_running (fst (voice_run_body (s, last_voice_time) inp)) = car_running s
      \<and> voice_active (fst (voice_run_body (s, last_voice_time) inp)) = voice_active s
      \<and> voiced (fst (voice_run_body (s, last_voice_time) inp)) = voiced s
      \<and> snd (voice_run_body (s, last_voice_time) inp) = last_voice_time"
    using voice_uncertain_frame [of s inp last_voice_time] by blast
  have inv: "quiet_while_running s \<longrightarrow>
        quiet_while_running (fst (voice_run_body (s, last_voice_time) inp))
        \<and> quiet_while_running (fst (voice_run_loop (s, last_voice_time) events))"
    using voice_body_quiet [of s last_voice_time inp]
      voice_loop_quiet [of "(s, last_voice_time)" events]
    by simp
  have trans: "quiet_while_running s \<and> car_running s \<and> stop_outcome s (vfaces inp) \<longrightarrow>
        voiced (fst (voice_run_body (s, last_voice_time) inp)) =
          voiced s @ [wake_messages ! (choice inp mod length wake_messages)]
        \<and> sent (fst (voice_run_body (s, last_voice_time) inp)) = sent s @ [''0'']"
    using voice_stop_frame [of s inp last_voice_time]
    by (auto simp: quiet_while_running_def)
  from stop opn unc init_voice_inactive [of engine opened] init_voice_quiet [of engine opened]
    inv trans
  show ?thesis by blast
qed

theorem voice_alert_rule_witness:
  "stop_outcome (init_voice_car True (Inl SerialException)\<lparr>car_running := True\<rparr>) []
   \<and> car_running (init_voice_car True (Inl SerialException)\<lparr>car_running := True\<rparr>)
   \<and> voiced (fst (voice_run_body
                     (init_voice_car True (Inl SerialException)\<lparr>car_running := True\<rparr>, 0)
                     \<lparr>vfaces = [], current_time = 10, choice = 0\<rparr>))
     = [''System ready! Eye controlled car activated!'', ''Hey! Wake up!'']
   \<and> sent (fst (voice_run_body
                   (init_voice_car True (Inl SerialException)\<lparr>car_running := True\<rparr>, 0)
                   \<lparr>vfaces = [], current_time = 10, choice = 0\<rparr>))
     = [''0'']
   \<and> voiced (fst (voice_run_body
                     (init_voice_car True (Inl SerialException)\<lparr>voice_active := True\<rparr>, 8)
                     \<lparr>vfaces = [], current_time = 10, choice = 0\<rparr>))
     = [''System ready! Eye controlled car activated!'']
   \<and> open_frame [face_with_eyes 2]
   \<and> \<not> voice_active
         (fst (voice_run_body
                 (init_voice_car True (Inl SerialException)\<lparr>voice_active := True\<rparr>, 8)
                 \<lparr>vfaces = [face_with_eyes 2], current_time = 10, choice = 0\<rparr>))"
proof -
  let ?s = "init_voice_car True (Inl SerialException)"
  let ?r = "?s\<lparr>car_running := True\<rparr>"
  let ?a = "?s\<lparr>voice_active := True\<rparr>"
  let ?i = "\<lparr>vfaces = [], current_time = 10, choice = 0\<rparr>"
  let ?o = "\<lparr>vfaces = [face_with_eyes 2], current_time = 10, choice = 0\<rparr>"
  have v: "voiced ?s = [''System ready! Eye controlled car activated!'']" "\<not> voice_active ?s"
    "sent ?s = []" "\<not> car_running ?s"
    by (simp_all add: init_voice_car_def setup_arduino_def say_voice_def)
  have m: "wake_messages ! 0 = ''Hey! Wake up!''"
    by (simp add: wake_messages_def)
  have sr: "stop_outcome ?r (vfaces ?i)" by (simp add: stop_outcome_def)
  have sa: "stop_outcome ?a (vfaces ?i)" by (simp add: stop_outcome_def)
  have qr: "quiet_while_running ?r" by (simp add: quiet_while_running_def v)
  have cr: "car_running ?r" by simp
  have o: "open_frame (vfaces ?o)" by (simp add: open_frame_two_eyes)
  from voice_alert_rule [where s = ?r and inp = ?i and last_voice_time = 0] qr cr sr
  have t1: "voiced (fst (voice_run_body (?r, 0) ?i))
              = voiced ?r @ [wake_messages ! (choice ?i mod length wake_messages)]
            \<and> sent (fst (voice_run_body (?r, 0) ?i)) = sent ?r @ [''0'']"
    by blast
  from voice_alert_rule [where s = ?a and inp = ?i and last_voice_time = 8] sa
  have t2: "voiced (fst (voice_run_body (?a, 8) ?i)) =
        voiced ?a @ (if \<not> voice_active ?a \<or> current_time ?i - 8 > 3
                    then [wake_messages ! (choice ?i mod length wake_messages)] else [])"
    by blast
  from voice_alert_rule [where s = ?a and inp = ?o and last_voice_time = 8] o
  have t3: "voice_active (fst (voice_run_body (?a, 8) ?o)) = (car_running ?a \<and> voice_active ?a)"
    by blast
  have r1: "voiced (fst (voice_run_body (?r, 0) ?i))
     = [''System ready! Eye controlled car activated!'', ''Hey! Wake up!'']"
    "sent (fst (voice_run_body (?r, 0) ?i)) = [''0'']"
    using t1 by (simp_all add: v m)
  have r2: "voiced (fst (voice_run_body (?a, 8) ?i))
     = [''System ready! Eye controlled car activated!'']"
    using t2 by (simp add: v)
  have r3: "\<not> voice_active (fst (voice_run_body (?a, 8) ?o))"
    using t3 by (simp add: v)
  have sr': "stop_outcome ?r []" using sr by simp
  from sr' cr r1 r2 open_frame_two_eyes r3 show ?thesis by blast
qed

text \<open>
  C8 as stated fails: the car starts at time 5 and the driver is gone from time 10 on.
  One transition into STOPPED (one \<open>0\<close> sent), but the wake-up message is spoken at time
  10 and again at time 15, while the outcome is steady.
\<close>

theorem repeated_alert_counterexample:
  "voiced (fst (voice_run_frames (init_voice_car True (Inl SerialException))
             [\<lparr>vfaces = [face_with_eyes 2], current_time = 5, choice = 0\<rparr>,
              \<lparr>vfaces = [], current_time = 10, choice = 0\<rparr>,
              \<lparr>vfaces = [], current_time = 11, choice = 0\<rparr>,
              \<lparr>vfaces = [], current_time = 15, choice = 0\<rparr>]))
     = [''System ready! Eye controlled car activated!'', ''Good! Car running!'',
        ''Hey! Wake up!'', ''Hey! Wake up!'']
   \<and> sent (fst (voice_run_frames (init_voice_car True (Inl SerialException))
             [\<lparr>vfaces = [face_with_eyes 2], current_time = 5, choice = 0\<rparr>,
              \<lparr>vfaces = [], current_time = 10, choice = 0\<rparr>,
              \<lparr>vfaces = [], current_time = 11, choice = 0\<rparr>,
              \<lparr>vfaces = [], current_time = 15, choice = 0\<rparr>]))
     = [''1'', ''0'']"
  by (simp add: voice_run_frames_def voice_run_body_def init_voice_car_def setup_arduino_def
        say_voice_def send_to_arduino_def link_send_def detect_eye_state_def face_with_eyes_def
        wake_messages_def Let_def)

section \<open>The eye aspect ratio\<close>

text \<open>
  C9: for six eye points \<open>p1 .. p6\<close> with distinct corners \<open>p1\<close> and \<open>p4\<close>, \<^verbatim>\<open>calculate_ear\<close>
  gives \<open>(dist p2 p6 + dist p3 p5) / (2 * dist p1 p4)\<close>, where \<open>dist\<close> is the Euclidean
  distance; the ratio is 1 when the two lid distances equal the corner distance (the
  fully open square) and 0 when both lid distances are 0 (the closed eye). The ratio of a
  face is the mean of the ratios of its two eyes, computed from landmarks 42 to 47 and 36
  to 41. Real arithmetic stands for the floating-point arithmetic of the source, so "is
  approximately" reads "is".
\<close>

theorem eye_aspect_ratio:
  "(euclidean p1 p4 \<noteq> 0 \<longrightarrow>
      calculate_ear [p1, p2, p3, p4, p5, p6] =
        Inr (Ear ((euclidean p2 p6 + euclidean p3 p5) / (2 * euclidean p1 p4))))
   \<and> (euclidean p1 p4 \<noteq> 0 \<and> euclidean p2 p6 = euclidean p1 p4
        \<and> euclidean p3 p5 = euclidean p1 p4 \<longrightarrow>
      calculate_ear [p1, p2, p3, p4, p5, p6] = Inr (Ear 1))
   \<and> (euclidean p1 p4 \<noteq> 0 \<and> euclidean p2 p6 = 0 \<and> euclidean p3 p5 = 0 \<longrightarrow>
      calculate_ear [p1, p2, p3, p4, p5, p6] = Inr (Ear 0))
   \<and> (calculate_ear (extract_eye_points face LEFT_EYE_POINTS) = Inr (Ear l)
        \<and> calculate_ear (extract_eye_points face RIGHT_EYE_POINTS) = Inr (Ear r) \<longrightarrow>
      avg_ear_of face = Inr (Ear ((l + r) / 2)))
   \<and> extract_eye_points face LEFT_EYE_POINTS =
        [part face 42, part face 43, part face 44, part face 45, part face 46, part face 47]
   \<and> extract_eye_points face RIGHT_EYE_POINTS =
        [part face 36, part face 37, part face 38, part face 39, part face 40, part face 41]
   \<and> euclidean (x1, y1) (x2, y2) = sqrt (real_of_int ((x1 - x2)\<^sup>2 + (y1 - y2)\<^sup>2))"
proof -
  have formula: "euclidean p1 p4 \<noteq> 0 \<longrightarrow>
      calculate_ear [p1, p2, p3, p4, p5, p6] =
        Inr (Ear ((euclidean p2 p6 + euclidean p3 p5) / (2 * euclidean p1 p4)))"
    by (simp add: calculate_ear_formula)
  have square: "euclidean p1 p4 \<noteq> 0 \<and> euclidean p2 p6 = euclidean p1 p4
        \<and> euclidean p3 p5 = euclidean p1 p4 \<longrightarrow>
      calculate_ear [p1, p2, p3, p4, p5, p6] = Inr (Ear 1)"
    by (simp add: calculate_ear_formula)
  have shut: "euclidean p1 p4 \<noteq> 0 \<and> euclidean p2 p6 = 0 \<and> euclidean p3 p5 = 0 \<longrightarrow>
      calculate_ear [p1, p2, p3, p4, p5, p6] = Inr (Ear 0)"
    by (simp add: calculate_ear_formula)
  have avg: "calculate_ear (extract_eye_points face LEFT_EYE_POINTS) = Inr (Ear l)
        \<and> calculate_ear (extract_eye_points face RIGHT_EYE_POINTS) = Inr (Ear r) \<longrightarrow>
      avg_ear_of face = Inr (Ear ((l + r) / 2))"
    by (simp add: avg_ear_of_both)
  have dist: "euclidean (x1, y1) (x2, y2) = sqrt (real_of_int ((x1 - x2)\<^sup>2 + (y1 - y2)\<^sup>2))"
    by (simp add: euclidean_def power2_eq_square)
  from formula square shut avg eye_points_of_face [of face] dist show ?thesis by blast
qed

theorem eye_aspect_ratio_witness:
  "euclidean (0, 3) (6, 3) \<noteq> 0
   \<and> euclidean (2, 6) (2, 0) = euclidean (0, 3) (6, 3)
   \<and> euclidean (4, 6) (4, 0) = euclidean (0, 3) (6, 3)
   \<and> calculate_ear [(0, 3), (2, 6), (4, 6), (6, 3), (4, 0), (2, 0)] = Inr (Ear 1)
   \<and> euclidean (0, 0) (6, 0) \<noteq> 0
   \<and> euclidean (0, 0) (0, 0) = 0
   \<and> calculate_ear [(0, 0), (0, 0), (0, 0), (6, 0), (0, 0), (0, 0)] = Inr (Ear 0)"
proof -
  have h1: "euclidean (0, 3) (6, 3) \<noteq> 0 \<and> euclidean (2, 6) (2, 0) = euclidean (0, 3) (6, 3)
        \<and> euclidean (4, 6) (4, 0) = euclidean (0, 3) (6, 3)"
    by (simp add: sample_distances)
  have h2: "euclidean (0, 0) (6, 0) \<noteq> 0 \<and> euclidean (0, 0) (0, 0) = 0 \<and> euclidean (0, 0) (0, 0) = 0"
    by (simp add: sample_distances)
  from eye_aspect_ratio [where ?p1.0 = "(0, 3)" and ?p2.0 = "(2, 6)" and ?p3.0 = "(4, 6)"
      and ?p4.0 = "(6, 3)" and ?p5.0 = "(4, 0)" and ?p6.0 = "(2, 0)"] h1
  have a: "calculate_ear [(0, 3), (2, 6), (4, 6), (6, 3), (4, 0), (2, 0)] = Inr (Ear 1)"
    by blast
  from eye_aspect_ratio [where ?p1.0 = "(0, 0)" and ?p2.0 = "(0, 0)" and ?p3.0 = "(0, 0)"
      and ?p4.0 = "(6, 0)" and ?p5.0 = "(0, 0)" and ?p6.0 = "(0, 0)"] h2
  have b: "calculate_ear [(0, 0), (0, 0), (0, 0), (6, 0), (0, 0), (0, 0)] = Inr (Ear 0)"
    by blast
  from h1 h2 a b show ?thesis by blast
qed

end
